theory Spec2Isabelle
  imports Main "HOL-Library.AList"
begin

section \<open>Strings, errors and JSON values\<close>

text \<open>
  A JavaScript string is a sequence of UTF-16 code units. A code unit is modelled as a
  natural number and a string as a list of them, so that \<open>length\<close> is the source's
  \<open>.length\<close>. \<open>str\<close> turns an ASCII literal into such a list.
\<close>

type_synonym jstring = "nat list"

definition str :: "string \<Rightarrow> jstring" where
  "str = map of_char"

text \<open>The exceptions the pipeline can meet: \<open>JSON.parse\<close> raises \<open>SyntaxError\<close>, and
  reading a property of \<open>null\<close> or \<open>undefined\<close> raises \<open>TypeError\<close>.\<close>

datatype error = SyntaxError | TypeError

text \<open>A JSON number is kept as the decimal it was written as: mantissa and exponent of ten.
  The pipeline never computes with numbers, it only tests \<open>typeof\<close>.\<close>

datatype number = Decimal int int

datatype json =
    JNull
  | JBool bool
  | JNumber number
  | JString jstring
  | JArray "json list"
  | JObject "(jstring \<times> json) list"

section \<open>The runtime's \<open>JSON.parse\<close>\<close>

text \<open>
  \<open>JSON.parse\<close> belongs to the JavaScript runtime. It is modelled after the JSON grammar of
  ECMA-404: a lexer, run as an automaton over the code units, and a parser over the tokens
  with an explicit stack of open arrays and objects. A repeated key of an object keeps its
  first position and takes the last value, as the runtime does.
\<close>

datatype tok =
    TLBrace | TRBrace | TLBrack | TRBrack | TColon | TComma
  | TStr jstring | TVal json

datatype lexstate =
    LStart
  | LInStr jstring
  | LEsc jstring
  | LUni jstring "nat list"
  | LWord jstring

definition json_ws :: "nat \<Rightarrow> bool" where
  "json_ws c \<longleftrightarrow> c = 32 \<or> c = 9 \<or> c = 10 \<or> c = 13"

definition is_digit :: "nat \<Rightarrow> bool" where
  "is_digit c \<longleftrightarrow> 48 \<le> c \<and> c \<le> 57"

definition hex_val :: "nat \<Rightarrow> nat option" where
  "hex_val c =
     (if 48 \<le> c \<and> c \<le> 57 then Some (c - 48)
      else if 97 \<le> c \<and> c \<le> 102 then Some (c - 87)
      else if 65 \<le> c \<and> c \<le> 70 then Some (c - 55)
      else None)"

definition unescape :: "nat \<Rightarrow> nat option" where
  "unescape c =
     (if c = 34 then Some 34
      else if c = 92 then Some 92
      else if c = 47 then Some 47
      else if c = 98 then Some 8
      else if c = 102 then Some 12
      else if c = 110 then Some 10
      else if c = 114 then Some 13
      else if c = 116 then Some 9
      else None)"

definition word_char :: "nat \<Rightarrow> bool" where
  "word_char c \<longleftrightarrow> is_digit c \<or> (97 \<le> c \<and> c \<le> 122) \<or> (65 \<le> c \<and> c \<le> 90)
     \<or> c = 43 \<or> c = 45 \<or> c = 46"

definition digits_val :: "jstring \<Rightarrow> nat" where
  "digits_val ds = foldl (\<lambda>a d. 10 * a + (d - 48)) 0 ds"

definition number_of_lexeme :: "jstring \<Rightarrow> number option" where
  "number_of_lexeme w =
     (let neg = (w \<noteq> [] \<and> hd w = 45);
          s1 = (if neg then tl w else w);
          ip = takeWhile is_digit s1;
          s2 = dropWhile is_digit s1;
          has_frac = (s2 \<noteq> [] \<and> hd s2 = 46);
          fp = (if has_frac then takeWhile is_digit (tl s2) else []);
          s3 = (if has_frac then dropWhile is_digit (tl s2) else s2);
          has_exp = (s3 \<noteq> [] \<and> (hd s3 = 101 \<or> hd s3 = 69));
          s4 = (if has_exp then tl s3 else []);
          eneg = (s4 \<noteq> [] \<and> hd s4 = 45);
          s5 = (if s4 \<noteq> [] \<and> (hd s4 = 45 \<or> hd s4 = 43) then tl s4 else s4);
          m = int (digits_val (ip @ fp));
          e = int (digits_val s5)
      in if ip = [] \<or> (length ip > 1 \<and> hd ip = 48) then None
         else if has_frac \<and> fp = [] then None
         else if has_exp \<and> (s5 = [] \<or> \<not> list_all is_digit s5) then None
         else if \<not> has_exp \<and> s3 \<noteq> [] then None
         else Some (Decimal (if neg then - m else m)
                            ((if eneg then - e else e) - int (length fp))))"

definition word_tok :: "jstring \<Rightarrow> tok option" where
  "word_tok w =
     (if w = str ''true'' then Some (TVal (JBool True))
      else if w = str ''false'' then Some (TVal (JBool False))
      else if w = str ''null'' then Some (TVal JNull)
      else map_option (\<lambda>n. TVal (JNumber n)) (number_of_lexeme w))"

definition lex_start :: "tok list \<Rightarrow> nat \<Rightarrow> (lexstate \<times> tok list) option" where
  "lex_start ts c =
     (if json_ws c then Some (LStart, ts)
      else if c = 123 then Some (LStart, TLBrace # ts)
      else if c = 125 then Some (LStart, TRBrace # ts)
      else if c = 91 then Some (LStart, TLBrack # ts)
      else if c = 93 then Some (LStart, TRBrack # ts)
      else if c = 58 then Some (LStart, TColon # ts)
      else if c = 44 then Some (LStart, TComma # ts)
      else if c = 34 then Some (LInStr [], ts)
      else if word_char c then Some (LWord [c], ts)
      else None)"

fun lex_step :: "(lexstate \<times> tok list) \<Rightarrow> nat \<Rightarrow> (lexstate \<times> tok list) option" where
  "lex_step (LStart, ts) c = lex_start ts c"
| "lex_step (LInStr acc, ts) c =
     (if c = 34 then Some (LStart, TStr (rev acc) # ts)
      else if c = 92 then Some (LEsc acc, ts)
      else if c < 32 then None
      else Some (LInStr (c # acc), ts))"
| "lex_step (LEsc acc, ts) c =
     (if c = 117 then Some (LUni acc [], ts)
      else (case unescape c of
              Some x \<Rightarrow> Some (LInStr (x # acc), ts)
            | None \<Rightarrow> None))"
| "lex_step (LUni acc hs, ts) c =
     (case hex_val c of
        None \<Rightarrow> None
      | Some h \<Rightarrow>
          (case hs of
             [a, b, c] \<Rightarrow> Some (LInStr ((((a * 16 + b) * 16 + c) * 16 + h) # acc), ts)
           | _ \<Rightarrow> Some (LUni acc (hs @ [h]), ts)))"
| "lex_step (LWord acc, ts) c =
     (if word_char c then Some (LWord (c # acc), ts)
      else (case word_tok (rev acc) of
              None \<Rightarrow> None
            | Some t \<Rightarrow> lex_start (t # ts) c))"

fun lex_run :: "(lexstate \<times> tok list) \<Rightarrow> jstring \<Rightarrow> (lexstate \<times> tok list) option" where
  "lex_run st [] = Some st"
| "lex_run st (c # cs) =
     (case lex_step st c of None \<Rightarrow> None | Some st' \<Rightarrow> lex_run st' cs)"

definition lex_finish :: "(lexstate \<times> tok list) \<Rightarrow> tok list option" where
  "lex_finish st =
     (case st of
        (LStart, ts) \<Rightarrow> Some (rev ts)
      | (LWord acc, ts) \<Rightarrow> map_option (\<lambda>t. rev (t # ts)) (word_tok (rev acc))
      | _ \<Rightarrow> None)"

definition json_lex :: "jstring \<Rightarrow> tok list option" where
  "json_lex s = (case lex_run (LStart, []) s of None \<Rightarrow> None | Some st \<Rightarrow> lex_finish st)"

datatype frame =
    InArr "json list"
  | InObj "(jstring \<times> json) list" "jstring option"

datatype pmode =
    WantValue | WantValueOrClose | WantKeyOrClose | WantKey | WantColon | AfterValue
  | Finished json

fun deliver :: "json \<Rightarrow> frame list \<Rightarrow> (pmode \<times> frame list) option" where
  "deliver v [] = Some (Finished v, [])"
| "deliver v (InArr es # st) = Some (AfterValue, InArr (v # es) # st)"
| "deliver v (InObj ms (Some k) # st) = Some (AfterValue, InObj (AList.update k v ms) None # st)"
| "deliver v (InObj ms None # st) = None"

definition wants_value :: "pmode \<Rightarrow> bool" where
  "wants_value m \<longleftrightarrow> m = WantValue \<or> m = WantValueOrClose"

definition wants_key :: "pmode \<Rightarrow> bool" where
  "wants_key m \<longleftrightarrow> m = WantKey \<or> m = WantKeyOrClose"

fun parse_step :: "(pmode \<times> frame list) \<Rightarrow> tok \<Rightarrow> (pmode \<times> frame list) option" where
  "parse_step (m, st) (TVal v) = (if wants_value m then deliver v st else None)"
| "parse_step (m, st) (TStr s) =
     (if wants_value m then deliver (JString s) st
      else if wants_key m then
        (case st of
           InObj ms None # st' \<Rightarrow> Some (WantColon, InObj ms (Some s) # st')
         | _ \<Rightarrow> None)
      else None)"
| "parse_step (m, st) TLBrack =
     (if wants_value m then Some (WantValueOrClose, InArr [] # st) else None)"
| "parse_step (m, st) TLBrace =
     (if wants_value m then Some (WantKeyOrClose, InObj [] None # st) else None)"
| "parse_step (m, st) TRBrack =
     (if m = AfterValue \<or> m = WantValueOrClose then
        (case st of InArr es # st' \<Rightarrow> deliver (JArray (rev es)) st' | _ \<Rightarrow> None)
      else None)"
| "parse_step (m, st) TRBrace =
     (if m = AfterValue \<or> m = WantKeyOrClose then
        (case st of InObj ms None # st' \<Rightarrow> deliver (JObject ms) st' | _ \<Rightarrow> None)
      else None)"
| "parse_step (m, st) TColon = (if m = WantColon then Some (WantValue, st) else None)"
| "parse_step (m, st) TComma =
     (if m = AfterValue then
        (case st of
           InArr es # st' \<Rightarrow> Some (WantValue, st)
         | InObj ms None # st' \<Rightarrow> Some (WantKey, st)
         | _ \<Rightarrow> None)
      else None)"

fun parse_run :: "(pmode \<times> frame list) \<Rightarrow> tok list \<Rightarrow> (pmode \<times> frame list) option" where
  "parse_run ps [] = Some ps"
| "parse_run ps (t # ts) =
     (case parse_step ps t of None \<Rightarrow> None | Some ps' \<Rightarrow> parse_run ps' ts)"

definition JSON_parse :: "jstring \<Rightarrow> error + json" where
  "JSON_parse s =
     (case json_lex s of
        None \<Rightarrow> Inl SyntaxError
      | Some ts \<Rightarrow>
          (case parse_run (WantValue, []) ts of
             Some (Finished v, []) \<Rightarrow> Inr v
           | _ \<Rightarrow> Inl SyntaxError))"

section \<open>Strings of the runtime\<close>

text \<open>White space and line terminators, as \<open>String.prototype.trim\<close> and the regular
  expression class \<open>\s\<close> take them.\<close>

definition js_space :: "nat \<Rightarrow> bool" where
  "js_space c \<longleftrightarrow> c = 9 \<or> c = 10 \<or> c = 11 \<or> c = 12 \<or> c = 13 \<or> c = 32 \<or> c = 160
     \<or> c = 5760 \<or> (8192 \<le> c \<and> c \<le> 8202) \<or> c = 8232 \<or> c = 8233 \<or> c = 8239
     \<or> c = 8287 \<or> c = 12288 \<or> c = 65279"

definition trim :: "jstring \<Rightarrow> jstring" where
  "trim s = rev (dropWhile js_space (rev (dropWhile js_space s)))"

text \<open>\<open>s.split('\n')\<close>: the pieces between the separators, empty pieces kept.\<close>

fun split_on :: "nat \<Rightarrow> jstring \<Rightarrow> jstring \<Rightarrow> jstring list" where
  "split_on d acc [] = [rev acc]"
| "split_on d acc (x # xs) =
     (if x = d then rev acc # split_on d [] xs else split_on d (x # acc) xs)"

definition split_newline :: "jstring \<Rightarrow> jstring list" where
  "split_newline s = split_on 10 [] s"

text \<open>\<open>s.split(/[...]+/)\<close> for a character class: the pieces between the maximal runs of
  separators; the flag tells that the previous unit was a separator.\<close>

fun split_runs :: "(nat \<Rightarrow> bool) \<Rightarrow> bool \<Rightarrow> jstring \<Rightarrow> jstring \<Rightarrow> jstring list" where
  "split_runs p r acc [] = [rev acc]"
| "split_runs p r acc (x # xs) =
     (if p x then (if r then split_runs p True [] xs else rev acc # split_runs p True [] xs)
      else split_runs p False (x # acc) xs)"

fun starts_with :: "jstring \<Rightarrow> jstring \<Rightarrow> bool" where
  "starts_with [] s = True"
| "starts_with (p # ps) [] = False"
| "starts_with (p # ps) (x # xs) = (p = x \<and> starts_with ps xs)"

fun includes_str :: "jstring \<Rightarrow> jstring \<Rightarrow> bool" where
  "includes_str sub [] = (sub = [])"
| "includes_str sub (x # xs) = (starts_with sub (x # xs) \<or> includes_str sub xs)"

text \<open>\<open>toLowerCase\<close>: the ASCII capitals, and the two other code units whose lower case
  holds an ASCII letter (U+0130 and the Kelvin sign U+212A). Every other code unit is
  left as it is: the runtime maps it to units outside ASCII, and the callers below only
  look for ASCII letters in the result.\<close>

definition lower_unit :: "nat \<Rightarrow> jstring" where
  "lower_unit c =
     (if 65 \<le> c \<and> c \<le> 90 then [c + 32]
      else if c = 304 then [105, 775]
      else if c = 8490 then [107]
      else [c])"

definition toLowerCase :: "jstring \<Rightarrow> jstring" where
  "toLowerCase s = concat (map lower_unit s)"

fun slice :: "nat \<Rightarrow> nat \<Rightarrow> nat \<Rightarrow> jstring \<Rightarrow> jstring" where
  "slice b e i [] = []"
| "slice b e i (x # xs) =
     (if e \<le> i then []
      else if b \<le> i then x # slice b e (Suc i) xs
      else slice b e (Suc i) xs)"

definition substring :: "jstring \<Rightarrow> nat \<Rightarrow> nat \<Rightarrow> jstring" where
  "substring s b e = slice b e 0 s"

section \<open>Regular expressions of the runtime\<close>

text \<open>
  The regular expressions of the source are kept as data and run by a backtracking matcher
  in continuation-passing style, which tries the alternatives in the order the runtime
  does: the left branch of \<open>|\<close> first, one more repetition of a greedy quantifier first,
  one repetition less of a lazy quantifier first. A quantifier of the source is always
  over a single character class, so \<open>Star\<close> and \<open>StarLazy\<close> take the class. The matcher
  runs on the position and the rest of the input and collects the capture groups as
  (group, start, end), the latest first.
\<close>

datatype re =
    Cls "nat \<Rightarrow> bool"
  | Eps
  | Seq re re
  | Alt re re
  | Opt re
  | Star "nat \<Rightarrow> bool"
  | StarLazy "nat \<Rightarrow> bool"
  | Grp nat re
  | Bol
  | Eol

type_synonym caps = "(nat \<times> nat \<times> nat) list"

fun star_greedy ::
  "(nat \<Rightarrow> bool) \<Rightarrow> (nat \<Rightarrow> jstring \<Rightarrow> caps \<Rightarrow> 'r option) \<Rightarrow> nat \<Rightarrow> jstring \<Rightarrow> caps \<Rightarrow> 'r option"
  where
  "star_greedy p k i [] c = k i [] c"
| "star_greedy p k i (x # xs) c =
     (if p x
      then (case star_greedy p k (Suc i) xs c of
              Some r \<Rightarrow> Some r
            | None \<Rightarrow> k i (x # xs) c)
      else k i (x # xs) c)"

fun star_lazy ::
  "(nat \<Rightarrow> bool) \<Rightarrow> (nat \<Rightarrow> jstring \<Rightarrow> caps \<Rightarrow> 'r option) \<Rightarrow> nat \<Rightarrow> jstring \<Rightarrow> caps \<Rightarrow> 'r option"
  where
  "star_lazy p k i [] c = k i [] c"
| "star_lazy p k i (x # xs) c =
     (case k i (x # xs) c of
        Some r \<Rightarrow> Some r
      | None \<Rightarrow> if p x then star_lazy p k (Suc i) xs c else None)"

primrec rmatch ::
  "re \<Rightarrow> (nat \<Rightarrow> jstring \<Rightarrow> caps \<Rightarrow> 'r option) \<Rightarrow> nat \<Rightarrow> jstring \<Rightarrow> caps \<Rightarrow> 'r option"
  where
  "rmatch (Cls p) k =
     (\<lambda>i s c. case s of [] \<Rightarrow> None | x # xs \<Rightarrow> if p x then k (Suc i) xs c else None)"
| "rmatch Eps k = k"
| "rmatch (Seq a b) k = rmatch a (rmatch b k)"
| "rmatch (Alt a b) k =
     (\<lambda>i s c. case rmatch a k i s c of Some r \<Rightarrow> Some r | None \<Rightarrow> rmatch b k i s c)"
| "rmatch (Opt a) k =
     (\<lambda>i s c. case rmatch a k i s c of Some r \<Rightarrow> Some r | None \<Rightarrow> k i s c)"
| "rmatch (Star p) k = star_greedy p k"
| "rmatch (StarLazy p) k = star_lazy p k"
| "rmatch (Grp j a) k = (\<lambda>i s c. rmatch a (\<lambda>i' s' c'. k i' s' ((j, i, i') # c')) i s c)"
| "rmatch Bol k = (\<lambda>i s c. if i = 0 then k i s c else None)"
| "rmatch Eol k = (\<lambda>i s c. if s = [] then k i s c else None)"

text \<open>The result of \<open>String.prototype.match\<close> without the \<open>g\<close> flag: the input, where the
  match starts and ends, the text after it, and the groups.\<close>

record rmatch_result =
  input :: jstring
  index :: nat
  last_index :: nat
  rest :: jstring
  groups :: caps

definition match_at :: "re \<Rightarrow> nat \<Rightarrow> jstring \<Rightarrow> (nat \<times> nat \<times> jstring \<times> caps) option" where
  "match_at r i s = rmatch r (\<lambda>i' s' c. Some (i, i', s', c)) i s []"

text \<open>The match is tried at every position from the left, the end of the input included.\<close>

fun search :: "re \<Rightarrow> nat \<Rightarrow> jstring \<Rightarrow> (nat \<times> nat \<times> jstring \<times> caps) option" where
  "search r i [] = match_at r i []"
| "search r i (x # xs) =
     (case match_at r i (x # xs) of
        Some m \<Rightarrow> Some m
      | None \<Rightarrow> search r (Suc i) xs)"

definition exec :: "re \<Rightarrow> jstring \<Rightarrow> rmatch_result option" where
  "exec r s =
     map_option
       (\<lambda>(b, e, s', c). \<lparr>input = s, index = b, last_index = e, rest = s', groups = c\<rparr>)
       (search r 0 s)"

text \<open>\<open>m[j]\<close>: the text of group \<open>j\<close>, \<open>None\<close> for \<open>undefined\<close>.\<close>

definition grp :: "rmatch_result \<Rightarrow> nat \<Rightarrow> jstring option" where
  "grp m j = map_option (\<lambda>(b, e). substring (input m) b e) (map_of (groups m) j)"

text \<open>\<open>s.replace(r, '')\<close> without the \<open>g\<close> flag, and \<open>r.test(s)\<close>.\<close>

definition replace_first :: "re \<Rightarrow> jstring \<Rightarrow> jstring" where
  "replace_first r s =
     (case exec r s of
        None \<Rightarrow> s
      | Some m \<Rightarrow> substring s 0 (index m) @ rest m)"

definition test :: "re \<Rightarrow> jstring \<Rightarrow> bool" where
  "test r s \<longleftrightarrow> exec r s \<noteq> None"

text \<open>Literal characters, with and without the \<open>i\<close> flag. Without the \<open>u\<close> flag the
  runtime compares the upper cases, and never lets a code unit outside ASCII match an
  ASCII one, so only the ASCII letters fold.\<close>

definition chr :: "nat \<Rightarrow> re" where
  "chr c = Cls (\<lambda>x. x = c)"

definition canon :: "nat \<Rightarrow> nat" where
  "canon c = (if 97 \<le> c \<and> c \<le> 122 then c - 32 else c)"

definition chri :: "nat \<Rightarrow> re" where
  "chri c = Cls (\<lambda>x. canon x = canon c)"

definition cat :: "re list \<Rightarrow> re" where
  "cat rs = foldr Seq rs Eps"

fun alts :: "re list \<Rightarrow> re" where
  "alts [] = Eps"
| "alts [r] = r"
| "alts (r # rs) = Alt r (alts rs)"

definition lit :: "string \<Rightarrow> re" where
  "lit s = cat (map chr (str s))"

definition liti :: "string \<Rightarrow> re" where
  "liti s = cat (map chri (str s))"

definition rplus :: "(nat \<Rightarrow> bool) \<Rightarrow> re" where
  "rplus p = Seq (Cls p) (Star p)"

definition rplus_lazy :: "(nat \<Rightarrow> bool) \<Rightarrow> re" where
  "rplus_lazy p = Seq (Cls p) (StarLazy p)"

text \<open>The classes \<open>[\s\S]\<close>, \<open>.\<close>, \<open>\w\<close>, \<open>[-*]\<close> with the bullet U+2022, and \<open>[^:]\<close>.\<close>

definition any_unit :: "nat \<Rightarrow> bool" where
  "any_unit c \<longleftrightarrow> True"

definition dot :: "nat \<Rightarrow> bool" where
  "dot c \<longleftrightarrow> c \<noteq> 10 \<and> c \<noteq> 13 \<and> c \<noteq> 8232 \<and> c \<noteq> 8233"

definition word_unit :: "nat \<Rightarrow> bool" where
  "word_unit c \<longleftrightarrow> (97 \<le> c \<and> c \<le> 122) \<or> (65 \<le> c \<and> c \<le> 90) \<or> is_digit c \<or> c = 95"

definition bullet :: "nat \<Rightarrow> bool" where
  "bullet c \<longleftrightarrow> c = 45 \<or> c = 8226 \<or> c = 42"

definition not_colon :: "nat \<Rightarrow> bool" where
  "not_colon c \<longleftrightarrow> c \<noteq> 58"

section \<open>Recipes\<close>

text \<open>
  The record the pipeline returns. \<open>validateAndFormatRecipe\<close> hands the arrays of the
  parsed reply on as they are, so the elements of \<open>ingredients\<close> and \<open>instructions\<close>
  are JSON values; \<open>None\<close> stands for \<open>undefined\<close>.
\<close>

record recipe =
  title :: jstring
  description_text :: jstring
  ingredients :: "json list"
  instructions :: "json list"
  cookingTime :: "number option"
  servings :: "number option"

text \<open>\<open>recipeObj.name\<close> on a value other than \<open>null\<close>, for the six names read below:
  an object has the property or not, and no other value has any of them.\<close>

definition get_prop :: "json \<Rightarrow> string \<Rightarrow> json option" where
  "get_prop v name = (case v of JObject ms \<Rightarrow> map_of ms (str name) | _ \<Rightarrow> None)"

definition string_or :: "json option \<Rightarrow> jstring \<Rightarrow> jstring" where
  "string_or v d = (case v of Some (JString s) \<Rightarrow> s | _ \<Rightarrow> d)"

definition array_or_empty :: "json option \<Rightarrow> json list" where
  "array_or_empty v = (case v of Some (JArray xs) \<Rightarrow> xs | _ \<Rightarrow> [])"

definition number_or_undefined :: "json option \<Rightarrow> number option" where
  "number_or_undefined v = (case v of Some (JNumber n) \<Rightarrow> Some n | _ \<Rightarrow> None)"

definition validateAndFormatRecipe :: "json \<Rightarrow> error + recipe" where
  "validateAndFormatRecipe recipeObj =
     (if recipeObj = JNull then Inl TypeError
      else Inr \<lparr>title = string_or (get_prop recipeObj ''title'') (str ''Unknown Dish''),
                description_text = string_or (get_prop recipeObj ''description'') [],
                ingredients = array_or_empty (get_prop recipeObj ''ingredients''),
                instructions = array_or_empty (get_prop recipeObj ''instructions''),
                cookingTime = number_or_undefined (get_prop recipeObj ''cookingTime''),
                servings = number_or_undefined (get_prop recipeObj ''servings'')\<rparr>)"

section \<open>Free-text extraction\<close>

definition ingredient :: "jstring \<Rightarrow> jstring \<Rightarrow> jstring \<Rightarrow> json" where
  "ingredient q u n =
     JObject [(str ''quantity'', JString q), (str ''unit'', JString u), (str ''name'', JString n)]"

text \<open>\<open>a || b\<close> on a group and a string, and on two match results.\<close>

definition or_str :: "jstring option \<Rightarrow> jstring \<Rightarrow> jstring" where
  "or_str v d = (case v of None \<Rightarrow> d | Some s \<Rightarrow> if s = [] then d else s)"

definition or_match :: "rmatch_result option \<Rightarrow> rmatch_result option \<Rightarrow> rmatch_result option" where
  "or_match a b = (case a of Some m \<Rightarrow> Some m | None \<Rightarrow> b)"

text \<open>The regular expressions of \<open>parseRecipeFromResponse\<close> and \<open>extractRecipeFromText\<close>,
  in the order of the source.\<close>

definition fence_re :: re where
  "fence_re = cat [lit ''```'', Opt (lit ''json''), Star js_space,
                   Grp 1 (cat [lit ''{'', Star any_unit, lit ''}'']),
                   Star js_space, lit ''```'']"

definition brace_re :: re where
  "brace_re = Grp 1 (cat [lit ''{'', Star any_unit, lit ''}''])"

definition title_label_re :: re where
  "title_label_re = cat [alts [liti ''Recipe'', liti ''Title'', liti ''Dish''], liti '':'',
                         Star js_space, Grp 1 (rplus dot)]"

definition first_line_re :: re where
  "first_line_re = cat [Bol, Grp 1 (rplus_lazy dot), Alt (lit ''\<newline>'') Eol]"

definition heading_re :: re where
  "heading_re = alts [cat [liti ''Instruction'', Opt (liti ''s'')],
                      cat [liti ''Direction'', Opt (liti ''s'')],
                      cat [liti ''Step'', Opt (liti ''s'')],
                      liti ''Method'']"

definition ingredient_section_re :: re where
  "ingredient_section_re =
     cat [liti ''Ingredient'', Opt (liti ''s''), liti '':'', Star js_space,
          Grp 1 (StarLazy any_unit),
          Alt (cat [liti ''\<newline>'', Star js_space, heading_re, liti '':'']) Eol]"

definition bullet_line_re :: re where
  "bullet_line_re = cat [Bol, Cls bullet, Cls js_space]"

definition numbered_line_re :: re where
  "numbered_line_re = cat [Bol, rplus is_digit, lit ''.'', Cls js_space]"

definition bare_line_re :: re where
  "bare_line_re = cat [Bol, rplus not_colon, Eol]"

definition marker_re :: re where
  "marker_re = Alt (cat [Bol, Cls bullet, Star js_space])
                   (cat [rplus is_digit, lit ''.'', Star js_space])"

definition quantity_re :: re where
  "quantity_re =
     cat [Bol, Grp 1 (cat [rplus is_digit, Opt (cat [lit ''/'', rplus is_digit])]),
          Star js_space, Opt (Grp 2 (rplus word_unit)), Star js_space,
          Grp 3 (rplus dot), Eol]"

definition whole_line_re :: re where
  "whole_line_re = cat [Bol, Grp 1 (rplus dot), Eol]"

definition instruction_section_re :: re where
  "instruction_section_re = cat [heading_re, liti '':'', Star js_space, Grp 1 (Star any_unit)]"

definition numbering_re :: re where
  "numbering_re = cat [Bol, rplus is_digit, lit ''.'', Star js_space]"

definition sentence_end :: "nat \<Rightarrow> bool" where
  "sentence_end c \<longleftrightarrow> c = 46 \<or> c = 33 \<or> c = 63"

definition measure_re :: re where
  "measure_re =
     cat [rplus is_digit, Star js_space,
          Grp 1 (alts [liti ''cup'', liti ''tablespoon'', liti ''teaspoon'', liti ''pound'',
                       liti ''ounce'', liti ''gram''])]"

definition verb_re :: re where
  "verb_re = Grp 1 (alts [liti ''heat'', liti ''cook'', liti ''bake'', liti ''mix'',
                          liti ''stir'', liti ''add'', liti ''combine''])"

text \<open>The title: the text after a label, else the first line, else the default.\<close>

definition extract_title :: "jstring \<Rightarrow> jstring" where
  "extract_title content =
     (case or_match (exec title_label_re content) (exec first_line_re content) of
        None \<Rightarrow> str ''Recipe from Image''
      | Some titleMatch \<Rightarrow>
          (case grp titleMatch 1 of
             None \<Rightarrow> str ''Recipe from Image''
           | Some t \<Rightarrow> if t = [] then str ''Recipe from Image'' else trim t))"

text \<open>The ingredients section: the lines kept by the filter, and what \<open>forEach\<close> pushes
  for one of them.\<close>

definition ingredient_line :: "jstring \<Rightarrow> bool" where
  "ingredient_line line \<longleftrightarrow>
     length line > 0 \<and>
     (test bullet_line_re line \<or> test numbered_line_re line \<or> test bare_line_re line)"

definition parse_ingredient :: "jstring \<Rightarrow> json option" where
  "parse_ingredient cleaned =
     (case or_match (exec quantity_re cleaned) (exec whole_line_re cleaned) of
        None \<Rightarrow> None
      | Some m \<Rightarrow>
          Some (ingredient (or_str (grp m 1) (str ''1''))
                           (or_str (grp m 2) [])
                           (or_str (grp m 3) (or_str (grp m 1) cleaned))))"

definition ingredient_of_line :: "jstring \<Rightarrow> json option" where
  "ingredient_of_line line =
     (let cleaned = trim (replace_first marker_re line)
      in if cleaned = [] then None else parse_ingredient cleaned)"

definition section_ingredients :: "jstring \<Rightarrow> error + json list" where
  "section_ingredients content =
     (case exec ingredient_section_re content of
        None \<Rightarrow> Inr []
      | Some ingredientSection \<Rightarrow>
          (case grp ingredientSection 1 of
             None \<Rightarrow> Inl TypeError
           | Some sec \<Rightarrow>
               Inr (List.map_filter ingredient_of_line
                      (filter ingredient_line (map trim (split_newline sec))))))"

text \<open>The instructions section.\<close>

definition instruction_of_line :: "jstring \<Rightarrow> json option" where
  "instruction_of_line line =
     (let cleaned = trim (replace_first numbering_re line)
      in if cleaned \<noteq> [] \<and> length cleaned > 10 then Some (JString cleaned) else None)"

definition section_instructions :: "jstring \<Rightarrow> error + json list" where
  "section_instructions content =
     (case exec instruction_section_re content of
        None \<Rightarrow> Inr []
      | Some instructionSection \<Rightarrow>
          (case grp instructionSection 1 of
             None \<Rightarrow> Inl TypeError
           | Some sec \<Rightarrow>
               Inr (List.map_filter instruction_of_line
                      (filter (\<lambda>line. length line > 0) (map trim (split_newline sec))))))"

text \<open>The last resort: the sentences of the whole text, each tested as an ingredient
  first and as an instruction otherwise.\<close>

definition sentences :: "jstring \<Rightarrow> jstring list" where
  "sentences content =
     filter (\<lambda>s. length s > 20) (map trim (split_runs sentence_end False [] content))"

definition is_ingredient_sentence :: "jstring \<Rightarrow> bool" where
  "is_ingredient_sentence sentence \<longleftrightarrow>
     includes_str (str ''ingredient'') (toLowerCase sentence) \<or> test measure_re sentence"

definition is_instruction_sentence :: "jstring \<Rightarrow> bool" where
  "is_instruction_sentence sentence \<longleftrightarrow> test verb_re (toLowerCase sentence)"

fun classify_sentences :: "jstring list \<Rightarrow> json list \<times> json list \<Rightarrow> json list \<times> json list" where
  "classify_sentences [] (ings, ins) = (ings, ins)"
| "classify_sentences (sentence # others) (ings, ins) =
     (if is_ingredient_sentence sentence
      then classify_sentences others (ings @ [ingredient (str ''1'') [] sentence], ins)
      else if is_instruction_sentence sentence
      then classify_sentences others (ings, ins @ [JString sentence])
      else classify_sentences others (ings, ins))"

definition placeholder_ingredient :: json where
  "placeholder_ingredient =
     ingredient (str ''1'') [] (str ''Ingredients could not be extracted from the image'')"

definition placeholder_instruction :: json where
  "placeholder_instruction =
     JString (str (''Instructions could not be extracted. Please refer to the original AI '' @
                   ''response or try uploading a clearer image.''))"

text \<open>\<open>extractRecipeFromText\<close>. The source also computes the non-empty trimmed lines of
  the text and never reads them; that has no effect and is left out. \<open>description\<close> is
  never assigned, so the default is always taken.\<close>

definition extractRecipeFromText :: "jstring \<Rightarrow> error + recipe" where
  "extractRecipeFromText content =
     (let title = extract_title content in
      case section_ingredients content of
        Inl e \<Rightarrow> Inl e
      | Inr ingredients0 \<Rightarrow>
          (case section_instructions content of
             Inl e \<Rightarrow> Inl e
           | Inr instructions0 \<Rightarrow>
               (let (ingredients1, instructions1) =
                      (if ingredients0 = [] \<and> instructions0 = []
                       then classify_sentences (sentences content) (ingredients0, instructions0)
                       else (ingredients0, instructions0))
                in Inr \<lparr>title = title,
                         description_text = str ''Recipe generated from image analysis'',
                         ingredients = (if ingredients1 \<noteq> [] then ingredients1
                                        else [placeholder_ingredient]),
                         instructions = (if instructions1 \<noteq> [] then instructions1
                                         else [placeholder_instruction]),
                         cookingTime = None,
                         servings = None\<rparr>)))"

section \<open>The recovery pipeline\<close>

text \<open>\<open>JSON.parse\<close> followed by \<open>validateAndFormatRecipe\<close>: either may raise.\<close>

definition parse_and_validate :: "jstring \<Rightarrow> error + recipe" where
  "parse_and_validate text =
     (case JSON_parse text of Inl e \<Rightarrow> Inl e | Inr v \<Rightarrow> validateAndFormatRecipe v)"

definition jsonMatch :: "jstring \<Rightarrow> rmatch_result option" where
  "jsonMatch content = or_match (exec fence_re content) (exec brace_re content)"

text \<open>The inner \<open>try\<close> block: the matched text if there is one, the trimmed text
  otherwise.\<close>

definition extract_json :: "jstring \<Rightarrow> error + recipe" where
  "extract_json content =
     (case jsonMatch content of
        None \<Rightarrow> parse_and_validate (trim content)
      | Some m \<Rightarrow>
          (case grp m 1 of
             None \<Rightarrow> parse_and_validate (trim content)
           | Some g \<Rightarrow> if g = [] then parse_and_validate (trim content)
                       else parse_and_validate g))"

text \<open>\<open>parseRecipeFromResponse\<close>: each \<open>catch\<close> takes whatever the block before it
  raised. The logging calls have no effect on the result and are left out.\<close>

definition parseRecipeFromResponse :: "jstring \<Rightarrow> error + recipe" where
  "parseRecipeFromResponse content =
     (case parse_and_validate content of
        Inr r \<Rightarrow> Inr r
      | Inl jsonError \<Rightarrow>
          (case extract_json content of
             Inr r \<Rightarrow> Inr r
           | Inl extractError \<Rightarrow> extractRecipeFromText content))"

section \<open>The request handler\<close>

datatype UnitSystem = Metric | Imperial

record RecipeRequest =
  imageBase64 :: "jstring option"
  unitSystem :: "UnitSystem option"

text \<open>The prompt of the handler, a constant of the source.\<close>

definition RECIPE_PROMPT :: jstring where
  \<open>RECIPE_PROMPT = str (
     ''\<newline>'' @
     ''Analyze this food image and generate a complete recipe. \<newline>'' @
     ''IMPORTANT: Respond ONLY with a valid JSON object. Do not include any markdown formatting, explanations, or other text.\<newline>'' @
     ''\<newline>'' @
     ''The JSON object must contain exactly these fields:\<newline>'' @
     ''{\<newline>'' @
     ''  "title": "Name of the dish",\<newline>'' @
     ''  "description": "Brief description (1-2 sentences)",\<newline>'' @
     ''  "ingredients": [\<newline>'' @
     ''    {\<newline>'' @
     ''      "name": "ingredient name",\<newline>'' @
     ''      "quantity": "amount",\<newline>'' @
     ''      "unit": "measurement unit"\<newline>'' @
     ''    }\<newline>'' @
     ''  ],\<newline>'' @
     ''  "instructions": ["step 1", "step 2", "step 3"],\<newline>'' @
     ''  "cookingTime": 30,\<newline>'' @
     ''  "servings": 4\<newline>'' @
     ''}\<newline>'' @
     ''\<newline>'' @
     ''Make reasonable assumptions about quantities and cooking methods based on what you can see in the image.\<newline>'' @
     ''Response must be valid JSON only.\<newline>'' @
     '''')\<close>

text \<open>\<open>getUnitSystemPrompt\<close> of the unit utilities; 176 is the degree sign.\<close>

definition getUnitSystemPrompt :: "UnitSystem \<Rightarrow> jstring" where
  \<open>getUnitSystemPrompt u =
     (if u = Metric
      then str (''Use METRIC units only:\<newline>'' @
                ''- Weights: grams (g), kilograms (kg)\<newline>'' @
                ''- Volumes: milliliters (ml), liters (L), tablespoons, teaspoons\<newline>'' @
                ''- Temperature: Celsius ('') @ [176] @ str (''C)\<newline>'' @
                ''- Example: "250g flour", "500ml milk", "2 tablespoons olive oil", "180'') @
           [176] @ str ''C"''
      else str (''Use IMPERIAL (US) units only:\<newline>'' @
                ''- Weights: ounces (oz), pounds (lbs)\<newline>'' @
                ''- Volumes: cups, fluid ounces (fl oz), tablespoons (tbsp), teaspoons (tsp)\<newline>'' @
                ''- Temperature: Fahrenheit ('') @ [176] @ str (''F)\<newline>'' @
                ''- Example: "2 cups flour", "1 cup milk", "2 tablespoons olive oil", "350'') @
           [176] @ str ''F"'')\<close>

text \<open>
  The external service is a parameter of the handler: given the request sent (the prompt
  and the image URL; model, token limit and temperature are constants), the call fails or
  returns the content of the first choice, which may be \<open>null\<close>. The handler returns its
  response together with the calls it made.
\<close>

record api_call =
  prompt_text :: jstring
  image_url :: jstring

datatype reply = Failed | Content "jstring option"

record response =
  status :: nat
  success :: bool
  body_recipe :: "recipe option"
  body_error :: "jstring option"

definition sampleRecipe :: recipe where
  \<open>sampleRecipe =
     \<lparr>title = str ''Sample Recipe (API Key Required)'',
      description_text = str (''This is a sample recipe. Please configure your OpenAI API key '' @
                              ''in .env.local to generate real recipes from images.''),
      ingredients =
        [JObject [(str ''name'', JString (str ''Sample ingredient 1'')),
                  (str ''quantity'', JString (str ''1'')), (str ''unit'', JString (str ''cup''))],
         JObject [(str ''name'', JString (str ''Sample ingredient 2'')),
                  (str ''quantity'', JString (str ''2'')),
                  (str ''unit'', JString (str ''tablespoons''))],
         JObject [(str ''name'', JString (str ''Sample ingredient 3'')),
                  (str ''quantity'', JString (str ''1'')), (str ''unit'', JString (str ''piece''))]],
      instructions =
        [JString (str ''Configure your OpenAI API key in the .env.local file''),
         JString (str ''Replace "your_openai_api_key_here" with your actual API key''),
         JString (str ''Restart the development server''),
         JString (str ''Upload an image to generate a real recipe'')],
      cookingTime = Some (Decimal 30 0),
      servings = Some (Decimal 4 0)\<rparr>\<close>

definition image_required :: response where
  "image_required =
     \<lparr>status = 400, success = False, body_recipe = None,
      body_error = Some (str ''Image data required'')\<rparr>"

definition generation_failed :: response where
  "generation_failed =
     \<lparr>status = 500, success = False, body_recipe = None,
      body_error = Some (str ''Failed to generate recipe. Please try again.'')\<rparr>"

definition succeeded :: "recipe \<Rightarrow> response" where
  "succeeded r = \<lparr>status = 200, success = True, body_recipe = Some r, body_error = None\<rparr>"

text \<open>\<open>!process.env.OPENAI_API_KEY || process.env.OPENAI_API_KEY.includes(...)\<close>.\<close>

definition key_not_configured :: "jstring option \<Rightarrow> bool" where
  "key_not_configured key =
     (case key of
        None \<Rightarrow> True
      | Some k \<Rightarrow> k = [] \<or> includes_str (str ''your_openai_api_key_here'') k)"

text \<open>\<open>POST\<close>: the key of the environment, the service, and the body of the request
  (\<open>None\<close> when \<open>request.json()\<close> fails). Only \<open>imageBase64\<close> is read from the body.\<close>

definition POST ::
  "jstring option \<Rightarrow> (api_call \<Rightarrow> reply) \<Rightarrow> RecipeRequest option \<Rightarrow> response \<times> api_call list"
  where
  "POST api_key openai request =
     (case request of
        None \<Rightarrow> (generation_failed, [])
      | Some body \<Rightarrow>
          (case imageBase64 body of
             None \<Rightarrow> (image_required, [])
           | Some imageData \<Rightarrow>
               if imageData = [] then (image_required, [])
               else if key_not_configured api_key then (succeeded sampleRecipe, [])
               else
                 (let call = \<lparr>prompt_text = RECIPE_PROMPT,
                              image_url = str ''data:image/jpeg;base64,'' @ imageData\<rparr>
                  in case openai call of
                       Failed \<Rightarrow> (generation_failed, [call])
                     | Content None \<Rightarrow> (generation_failed, [call])
                     | Content (Some content) \<Rightarrow>
                         if content = [] then (generation_failed, [call])
                         else (case parseRecipeFromResponse content of
                                 Inl e \<Rightarrow> (generation_failed, [call])
                               | Inr r \<Rightarrow> (succeeded r, [call])))))"

section \<open>Notions used in the statements\<close>


text \<open>An expression without groups. A text in which some \<open>{\<close> is followed, anywhere later,
  by a \<open>}\<close>.\<close>

fun group_free :: "re \<Rightarrow> bool" where
  "group_free (Grp j a) = False"
| "group_free (Seq a b) = (group_free a \<and> group_free b)"
| "group_free (Alt a b) = (group_free a \<and> group_free b)"
| "group_free (Opt a) = group_free a"
| "group_free a = True"

fun braces :: "jstring \<Rightarrow> bool" where
  "braces [] = False"
| "braces (x # xs) = (x = 123 \<and> 125 \<in> set xs \<or> braces xs)"


definition ingredient_shape :: "json \<Rightarrow> bool" where
  "ingredient_shape v =
     (case v of
        JObject ms \<Rightarrow>
          (case map_of ms (str ''name'') of Some (JString n) \<Rightarrow> True | _ \<Rightarrow> False) \<and>
          (case map_of ms (str ''quantity'') of Some (JString q) \<Rightarrow> True | _ \<Rightarrow> False) \<and>
          (case map_of ms (str ''unit'') of Some (JString u) \<Rightarrow> True | _ \<Rightarrow> False)
      | _ \<Rightarrow> False)"



text \<open>Step 2 of the chain on its own: what parsing the fenced or embedded substring gives,
  \<open>None\<close> when no substring is found. Step 3 on its own: the trimmed retry, followed by the
  free-text extraction.\<close>

definition substring_parse :: "jstring \<Rightarrow> (error + recipe) option" where
  "substring_parse content =
     (case jsonMatch content of
        None \<Rightarrow> None
      | Some m \<Rightarrow>
          (case grp m 1 of
             None \<Rightarrow> None
           | Some g \<Rightarrow> if g = [] then None else Some (parse_and_validate g)))"

definition trimmed_retry :: "jstring \<Rightarrow> error + recipe" where
  "trimmed_retry content =
     (case parse_and_validate (trim content) of
        Inr r \<Rightarrow> Inr r
      | Inl e \<Rightarrow> extractRecipeFromText content)"

text \<open>The order of the steps as the specification words it: whenever step 1 and step 2
  both fail to produce a structure, the trimmed retry comes next.\<close>

definition spec_trimmed_retry :: "jstring \<Rightarrow> bool" where
  "spec_trimmed_retry content \<longleftrightarrow>
     (isl (parse_and_validate content) \<and>
      (case substring_parse content of None \<Rightarrow> True | Some res \<Rightarrow> isl res)
      \<longrightarrow> parseRecipeFromResponse content = trimmed_retry content)"

text \<open>\<open>xs.length > 0 ? xs : [placeholder]\<close>.\<close>

definition or_placeholder :: "json list \<Rightarrow> json \<Rightarrow> json list" where
  "or_placeholder xs p = (if xs \<noteq> [] then xs else [p])"

text \<open>A fenced code block: the fence, an optional tag, white space, the body, white space,
  the fence.\<close>

definition fenced :: "jstring \<Rightarrow> jstring \<Rightarrow> jstring \<Rightarrow> jstring \<Rightarrow> jstring" where
  "fenced tag ws1 body ws2 = str ''```'' @ tag @ ws1 @ body @ ws2 @ str ''```''"





section \<open>The inputs of the scenarios\<close>


definition soup_interior :: jstring where
  \<open>soup_interior = str ''"title":"Soup","ingredients":[],"instructions":["Boil water"]''\<close>

definition soup_fenced :: jstring where
  \<open>soup_fenced =
     str ''```json\<newline>{"title":"Soup","ingredients":[],"instructions":["Boil water"]}\<newline>```''\<close>




definition hello :: jstring where
  "hello = str ''hello''"

definition salt_input :: jstring where
  "salt_input = str ''Ingredients:\<newline>salt to taste''"

text \<open>A byte order mark (U+FEFF) before a JSON array of two objects.\<close>

definition bom_array :: jstring where
  \<open>bom_array = 65279 # str ''[{"a":1},{"b":2}]''\<close>


definition flour_sentence :: jstring where
  "flour_sentence = str ''Add 2 cups of flour and mix well''"

definition steps_input :: jstring where
  "steps_input = str ''Steps:\<newline>Mix everything together''"

section \<open>Evaluating the model\<close>

text \<open>
  The concrete scenarios below are computed inside the logic by rewriting with the
  defining equations. The collections name the equations used: string literals and
  arithmetic on numerals, the list library, the JSON parser, the matcher, the pipeline.
\<close>

lemma length_Cons_Suc: "length (x # xs) = Suc (length xs)"
  by simp

lemmas eval_literals =
  str_def list.map of_char_Char horner_sum_simps of_bool_eq
  arith_simps mult_1_right mult_1_left add_numeral_special

lemmas eval_library =
  simp_thms if_True if_False Let_def
  list.case option.case sum.case prod.case
  list.inject list.distinct option.inject option.distinct sum.inject sum.distinct prod.inject
  list.sel fst_conv snd_conv
  rel_simps Suc_numeral One_nat_def[symmetric] Suc_1
  diff_nat_numeral nat_numeral nat_0 nat_1 nat_neg_numeral
  of_nat_numeral of_nat_0 of_nat_1
  append.simps rev.simps foldr.simps foldl.simps o_apply id_apply
  takeWhile.simps dropWhile.simps filter.simps concat.simps
  List.map_filter_simps option.map map_of.simps fun_upd_apply AList.update.simps
  list.size(3) length_Cons_Suc list.pred_inject

lemmas eval_json =
  JSON_parse_def json_lex_def lex_run.simps lex_step.simps lex_start_def lex_finish_def
  word_tok_def number_of_lexeme_def digits_val_def json_ws_def is_digit_def hex_val_def
  unescape_def word_char_def parse_run.simps parse_step.simps deliver.simps
  wants_value_def wants_key_def
  json.inject json.distinct json.case tok.case tok.distinct tok.inject
  lexstate.case lexstate.distinct lexstate.inject
  pmode.case pmode.distinct pmode.inject frame.case frame.distinct frame.inject number.inject

lemmas eval_regex =
  rmatch.simps star_greedy.simps star_lazy.simps match_at_def search.simps exec_def grp_def
  replace_first_def test_def substring_def slice.simps
  chr_def chri_def canon_def cat_def alts.simps lit_def liti_def rplus_def rplus_lazy_def
  any_unit_def dot_def word_unit_def bullet_def not_colon_def js_space_def
  sentence_end_def rmatch_result.simps
  trim_def split_newline_def split_on.simps split_runs.simps
  starts_with.simps includes_str.simps lower_unit_def toLowerCase_def
  fence_re_def brace_re_def title_label_re_def first_line_re_def heading_re_def
  ingredient_section_re_def bullet_line_re_def numbered_line_re_def bare_line_re_def
  marker_re_def quantity_re_def whole_line_re_def instruction_section_re_def numbering_re_def
  measure_re_def verb_re_def

lemmas eval_pipeline =
  get_prop_def string_or_def array_or_empty_def number_or_undefined_def
  validateAndFormatRecipe_def ingredient_def or_str_def or_match_def
  extract_title_def ingredient_line_def parse_ingredient_def ingredient_of_line_def
  section_ingredients_def instruction_of_line_def section_instructions_def sentences_def
  is_ingredient_sentence_def is_instruction_sentence_def classify_sentences.simps
  placeholder_ingredient_def placeholder_instruction_def extractRecipeFromText_def
  parse_and_validate_def jsonMatch_def extract_json_def parseRecipeFromResponse_def

lemmas eval_all = eval_literals eval_library eval_json eval_regex eval_pipeline

lemmas eval_cong =
  if_weak_cong option.case_cong_weak list.case_cong_weak sum.case_cong_weak

section \<open>Facts about the matcher\<close>

text \<open>
  Every success of the matcher runs through its continuation, on a suffix of the input, at
  the position after what was consumed, with groups added in front of the ones it had.
\<close>

lemma star_greedy_SomeD:
  "star_greedy p k i s c = Some r \<Longrightarrow>
   \<exists>u v. s = u @ v \<and> list_all p u \<and> k (i + length u) v c = Some r"
proof (induction s arbitrary: i)
  case Nil
  then show ?case by simp
next
  case (Cons x xs)
  show ?case
  proof (cases "p x \<and> star_greedy p k (Suc i) xs c \<noteq> None")
    case True
    then have "star_greedy p k (Suc i) xs c = Some r"
      using Cons.prems by (auto split: option.splits)
    then obtain u v where "xs = u @ v" "list_all p u" "k (Suc i + length u) v c = Some r"
      using Cons.IH by blast
    then have "x # xs = (x # u) @ v \<and> list_all p (x # u) \<and> k (i + length (x # u)) v c = Some r"
      using True by simp
    then show ?thesis by blast
  next
    case False
    then have "k i (x # xs) c = Some r"
      using Cons.prems by (auto split: option.splits if_splits)
    then have "x # xs = [] @ (x # xs) \<and> list_all p [] \<and> k (i + length ([]::nat list)) (x # xs) c = Some r"
      by simp
    then show ?thesis by blast
  qed
qed

lemma star_lazy_SomeD:
  "star_lazy p k i s c = Some r \<Longrightarrow>
   \<exists>u v. s = u @ v \<and> list_all p u \<and> k (i + length u) v c = Some r"
proof (induction s arbitrary: i)
  case Nil
  then show ?case by simp
next
  case (Cons x xs)
  show ?case
  proof (cases "k i (x # xs) c")
    case (Some a)
    then have "k i (x # xs) c = Some r" using Cons.prems by simp
    then have "x # xs = [] @ (x # xs) \<and> list_all p [] \<and> k (i + length ([]::nat list)) (x # xs) c = Some r"
      by simp
    then show ?thesis by blast
  next
    case None
    then have px: "p x" and "star_lazy p k (Suc i) xs c = Some r"
      using Cons.prems by (auto split: if_splits)
    then obtain u v where "xs = u @ v" "list_all p u" "k (Suc i + length u) v c = Some r"
      using Cons.IH by blast
    then have "x # xs = (x # u) @ v \<and> list_all p (x # u) \<and> k (i + length (x # u)) v c = Some r"
      using px by simp
    then show ?thesis by blast
  qed
qed






text \<open>
  A match found at the first position is the result; the text between two positions.
\<close>

lemma search_hit: "match_at r i s = Some m \<Longrightarrow> search r i s = Some m"
  by (cases s) auto

lemma exec_hit:
  "match_at r 0 s = Some (b, e, s', c) \<Longrightarrow>
   exec r s = Some \<lparr>input = s, index = b, last_index = e, rest = s', groups = c\<rparr>"
  by (simp add: exec_def search_hit)

lemma slice_eq: "slice b e i s = drop (b - i) (take (e - i) s)"
proof (induction s arbitrary: i)
  case Nil
  then show ?case by simp
next
  case (Cons x xs)
  show ?case
  proof (cases "e \<le> i")
    case True
    then show ?thesis by simp
  next
    case False
    then obtain n where n: "e - i = Suc n" by (cases "e - i") auto
    then have n': "e - Suc i = n" by simp
    show ?thesis
    proof (cases "b \<le> i")
      case True
      then show ?thesis using False n n' Cons.IH [of "Suc i"] by simp
    next
      case b: False
      then obtain m where m: "b - i = Suc m" by (cases "b - i") auto
      then have "b - Suc i = m" by simp
      then show ?thesis using False b n n' m Cons.IH [of "Suc i"] by simp
    qed
  qed
qed

lemma substring_middle: "substring (u @ v @ w) (length u) (length u + length v) = v"
  by (simp add: substring_def slice_eq)


text \<open>
  Literals and greedy repetition: a run of the class is consumed whole when the
  continuation accepts what follows; otherwise the longest run whose rest is accepted.
\<close>

lemma rmatch_chrs: "rmatch (cat (map chr w)) k i (w @ s) c = k (i + length w) s c"
  by (induction w arbitrary: i) (simp_all add: cat_def chr_def)

lemma rmatch_lit: "rmatch (lit w) k i (str w @ s) c = k (i + length w) s c"
  using rmatch_chrs [of "str w"] by (simp add: lit_def str_def)

lemma rmatch_chrs_mismatch:
  "w \<noteq> [] \<Longrightarrow> s = [] \<or> hd s \<noteq> hd w \<Longrightarrow> rmatch (cat (map chr w)) k i s c = None"
  by (cases w; cases s) (auto simp: cat_def chr_def)

lemma star_greedy_stop:
  "v = [] \<or> \<not> p (hd v) \<Longrightarrow> star_greedy p k i v c = k i v c"
  by (cases v) auto

lemma star_greedy_consume:
  assumes "list_all p u" and "v = [] \<or> \<not> p (hd v)" and "k (i + length u) v c = Some r"
  shows "star_greedy p k i (u @ v) c = Some r"
  using assms
proof (induction u arbitrary: i)
  case Nil
  then show ?case by (simp add: star_greedy_stop)
next
  case (Cons x u)
  then have "star_greedy p k (Suc i) (u @ v) c = Some r" by simp
  then show ?case using Cons.prems(1) by simp
qed

lemma star_greedy_last:
  assumes "star_greedy p k (Suc (i + length u)) v c = None"
    and "k (i + length u) (y # v) c = Some r" and "list_all p u"
  shows "star_greedy p k i (u @ y # v) c = Some r"
  using assms
proof (induction u arbitrary: i)
  case Nil
  then show ?case by simp
next
  case (Cons x u)
  then have "star_greedy p k (Suc i) (u @ y # v) c = Some r" by simp
  then show ?case using Cons.prems(3) by simp
qed

lemma star_greedy_none:
  assumes "\<And>j t. t = [] \<or> \<not> first (hd t) \<Longrightarrow> k j t c = None"
    and "\<forall>z \<in> set v. \<not> first z"
  shows "star_greedy p k i v c = None"
  using assms(2)
proof (induction v arbitrary: i)
  case Nil
  then show ?case using assms(1) by simp
next
  case (Cons x v)
  then have "star_greedy p k (Suc i) v c = None" by simp
  moreover have "k i (x # v) c = None" using assms(1) [of "x # v" i] Cons.prems by simp
  ultimately show ?case by simp
qed

lemma list_all_any: "list_all any_unit u"
  by (simp add: list_all_iff any_unit_def)

text \<open>
  An expression without groups leaves the groups as they are. The search tries the
  positions from the left and stops at the first that matches; a greedy repetition
  succeeds as soon as one of its stops does.
\<close>

lemma rmatch_group_free:
  "rmatch a k i s c = Some r \<Longrightarrow> group_free a \<Longrightarrow>
   \<exists>u v. s = u @ v \<and> k (i + length u) v c = Some r"
proof (induction a arbitrary: k i s c r)
  case (Cls p)
  then obtain x xs where s: "s = x # xs" and "p x" and "k (Suc i) xs c = Some r"
    by (auto split: list.splits if_splits)
  then have "s = [x] @ xs \<and> k (i + length [x]) xs c = Some r" by simp
  then show ?case by blast
next
  case Eps
  then have "s = [] @ s \<and> k (i + length ([]::nat list)) s c = Some r" by simp
  then show ?case by blast
next
  case (Seq a b)
  from Seq.prems have "rmatch a (rmatch b k) i s c = Some r" "group_free a" "group_free b"
    by simp_all
  from Seq.IH(1) [OF this(1,2)] obtain u v
    where 1: "s = u @ v" "rmatch b k (i + length u) v c = Some r" by blast
  from Seq.IH(2) [OF 1(2) \<open>group_free b\<close>] obtain u' v'
    where 2: "v = u' @ v'" "k (i + length u + length u') v' c = Some r" by blast
  have "s = (u @ u') @ v' \<and> k (i + length (u @ u')) v' c = Some r"
    using 1 2 by (simp add: add.assoc)
  then show ?case by blast
next
  case (Alt a b)
  then show ?case by (auto split: option.splits)
next
  case (Opt a)
  show ?case
  proof (cases "rmatch a k i s c")
    case None
    then have "k i s c = Some r" using Opt.prems by simp
    then have "s = [] @ s \<and> k (i + length ([]::nat list)) s c = Some r" by simp
    then show ?thesis by blast
  next
    case (Some x)
    then have "rmatch a k i s c = Some r" using Opt.prems by simp
    then show ?thesis using Opt.IH Opt.prems(2) by simp
  qed
next
  case (Star p)
  then have "star_greedy p k i s c = Some r" by simp
  from star_greedy_SomeD [OF this] show ?case by blast
next
  case (StarLazy p)
  then have "star_lazy p k i s c = Some r" by simp
  from star_lazy_SomeD [OF this] show ?case by blast
next
  case (Grp j a)
  then show ?case by simp
next
  case Bol
  then have "k i s c = Some r" by (simp split: if_splits)
  then have "s = [] @ s \<and> k (i + length ([]::nat list)) s c = Some r" by simp
  then show ?case by blast
next
  case Eol
  then have "k i s c = Some r" by (simp split: if_splits)
  then have "s = [] @ s \<and> k (i + length ([]::nat list)) s c = Some r" by simp
  then show ?case by blast
qed

lemma search_SomeD_at:
  "search r i s = Some m \<Longrightarrow> \<exists>p t. s = p @ t \<and> match_at r (i + length p) t = Some m"
proof (induction s arbitrary: i)
  case Nil
  then have "[] = [] @ ([]::jstring) \<and> match_at r (i + length ([]::jstring)) [] = Some m" by simp
  then show ?case by blast
next
  case (Cons x xs)
  show ?case
  proof (cases "match_at r i (x # xs)")
    case (Some a)
    then have "x # xs = [] @ x # xs \<and> match_at r (i + length ([]::jstring)) (x # xs) = Some m"
      using Cons.prems by simp
    then show ?thesis by blast
  next
    case None
    then have "search r (Suc i) xs = Some m" using Cons.prems by simp
    then obtain p t where "xs = p @ t" "match_at r (Suc i + length p) t = Some m"
      using Cons.IH by blast
    then have "x # xs = (x # p) @ t \<and> match_at r (i + length (x # p)) t = Some m" by simp
    then show ?thesis by blast
  qed
qed

lemma search_reaches:
  "match_at r (i + length p) t \<noteq> None \<Longrightarrow> search r i (p @ t) \<noteq> None"
proof (induction p arbitrary: i)
  case Nil
  then show ?case using search_hit [of r i t] by auto
next
  case (Cons x p)
  then have "search r (Suc i) (p @ t) \<noteq> None" by simp
  then show ?case by (auto split: option.splits)
qed

lemma star_greedy_some:
  assumes "list_all p u" and "k (i + length u) (y # v) c \<noteq> None"
  shows "star_greedy p k i (u @ y # v) c \<noteq> None"
  using assms
proof (induction u arbitrary: i)
  case Nil
  then show ?case by (auto split: option.splits)
next
  case (Cons x u)
  then have "star_greedy p k (Suc i) (u @ y # v) c \<noteq> None" by simp
  then show ?case using Cons.prems(1) by (auto split: option.splits)
qed

section \<open>The pipeline returns a recipe for every input\<close>







text \<open>
  What the free-text extraction returns has the declared element shapes.
\<close>

lemma ingredient_shape_ingredient [simp]: "ingredient_shape (ingredient q u n)"
  by (simp add: ingredient_shape_def ingredient_def str_def)

lemma classify_sentences_eq:
  "classify_sentences ss (a, b) =
     (a @ map (ingredient (str ''1'') []) (filter is_ingredient_sentence ss),
      b @ map JString (filter (\<lambda>s. \<not> is_ingredient_sentence s \<and> is_instruction_sentence s) ss))"
  by (induction ss arbitrary: a b) auto














section \<open>Valid JSON is returned as it is\<close>

lemma parse_object:
  assumes "JSON_parse content = Inr (JObject ms)"
  shows "parseRecipeFromResponse content = validateAndFormatRecipe (JObject ms)"
  using assms by (simp add: parseRecipeFromResponse_def parse_and_validate_def validateAndFormatRecipe_def)





section \<open>A fenced block is parsed as its interior\<close>

lemma closing_fence:
  assumes "list_all js_space ws2" and "k (i + length ws2 + 3) [] c = Some r"
  shows "rmatch (Star js_space) (rmatch (lit ''```'') k) i (ws2 @ str ''```'') c = Some r"
proof -
  have t: "str ''```'' = str ''```'' @ []" by simp
  have "rmatch (lit ''```'') k (i + length ws2) (str ''```'' @ []) c = Some r"
    using assms(2) by (simp only: rmatch_lit) (simp add: add.assoc numeral_3_eq_3)
  then have "rmatch (lit ''```'') k (i + length ws2) (str ''```'') c = Some r" by simp
  moreover have "str ''```'' = [] \<or> \<not> js_space (hd (str ''```''))"
    by (simp add: str_def js_space_def)
  ultimately show ?thesis
    using star_greedy_consume [OF assms(1)] by simp
qed

lemma brace_unfold:
  "rmatch (Grp 1 (cat [lit ''{'', Star any_unit, lit ''}''])) K i (123 # t) c =
     star_greedy any_unit
       (\<lambda>j t c. case t of [] \<Rightarrow> None
                | x # xs \<Rightarrow> if x = 125 then K (Suc j) xs ((1, i, Suc j) # c) else None)
       (Suc i) t c"
  by (simp add: cat_def lit_def chr_def str_def del: One_nat_def)

lemma brace_group:
  assumes "list_all js_space ws2"
    and "\<And>c'. k (Suc (Suc (i + length mid)) + length ws2 + 3) [] c' = Some (f c')"
  shows "rmatch (Grp 1 (cat [lit ''{'', Star any_unit, lit ''}'']))
           (rmatch (Star js_space) (rmatch (lit ''```'') k)) i
           (123 # mid @ 125 # ws2 @ str ''```'') c
         = Some (f ((1, i, Suc (Suc (i + length mid))) # c))"
proof -
  define K where "K = rmatch (Star js_space) (rmatch (lit ''```'') k)"
  define kk where "kk = (\<lambda>j t c. case t of [] \<Rightarrow> None
                     | x # xs \<Rightarrow> if x = 125 then K (Suc j) xs ((1, i, Suc j) # c) else None)"
  have none: "star_greedy any_unit kk (Suc (Suc i + length mid)) (ws2 @ str ''```'') c = None"
  proof (rule star_greedy_none [where first = "\<lambda>x. x = 125"])
    fix j and t :: jstring
    assume "t = [] \<or> hd t \<noteq> 125"
    then show "kk j t c = None" by (cases t) (auto simp: kk_def)
  next
    show "\<forall>z \<in> set (ws2 @ str ''```''). z \<noteq> 125"
      using assms(1) by (auto simp: list_all_iff js_space_def str_def)
  qed
  have "K (Suc (Suc (i + length mid))) (ws2 @ str ''```'') ((1, i, Suc (Suc (i + length mid))) # c)
        = Some (f ((1, i, Suc (Suc (i + length mid))) # c))"
    unfolding K_def by (rule closing_fence [OF assms(1)]) (rule assms(2))
  then have some: "kk (Suc i + length mid) (125 # ws2 @ str ''```'') c
        = Some (f ((1, i, Suc (Suc (i + length mid))) # c))"
    by (simp add: kk_def del: One_nat_def)
  have "star_greedy any_unit kk (Suc i) (mid @ 125 # ws2 @ str ''```'') c
        = Some (f ((1, i, Suc (Suc (i + length mid))) # c))"
    by (rule star_greedy_last [OF none some list_all_any])
  then show ?thesis
    unfolding brace_unfold kk_def K_def .
qed

lemma json_tag_skipped:
  assumes "t = [] \<or> hd t \<noteq> 106"
  shows "rmatch (Opt (lit ''json'')) K i t c = K i t c"
proof -
  have "rmatch (lit ''json'') K i t c = None"
    using assms rmatch_chrs_mismatch [of "str ''json''" t K i c]
    by (simp add: lit_def) (simp add: str_def)
  then show ?thesis by simp
qed

lemma json_tag_taken:
  assumes "K (i + 4) t c \<noteq> None"
  shows "rmatch (Opt (lit ''json'')) K i (str ''json'' @ t) c = K (i + 4) t c"
proof -
  have "rmatch (lit ''json'') K i (str ''json'' @ t) c = K (i + 4) t c"
    by (simp only: rmatch_lit) (simp add: eval_nat_numeral)
  then show ?thesis using assms by auto
qed

lemma fence_match:
  assumes tag: "tag = [] \<or> tag = str ''json''"
    and ws1: "list_all js_space ws1" and ws2: "list_all js_space ws2"
  shows "match_at fence_re 0 (fenced tag ws1 (123 # mid @ [125]) ws2) =
         Some (0, length (fenced tag ws1 (123 # mid @ [125]) ws2), [],
               [(1, 3 + length tag + length ws1, 3 + length tag + length ws1 + (length mid + 2))])"
proof -
  define final :: "nat \<Rightarrow> jstring \<Rightarrow> caps \<Rightarrow> (nat \<times> nat \<times> jstring \<times> caps) option"
    where "final = (\<lambda>i' s' c. Some (0, i', s', c))"
  define K4 where "K4 = rmatch (Star js_space) (rmatch (lit ''```'') final)"
  define K3 where "K3 = rmatch (Grp 1 (cat [lit ''{'', Star any_unit, lit ''}''])) K4"
  define K2 where "K2 = rmatch (Star js_space) K3"
  define K1 where "K1 = rmatch (Opt (lit ''json'')) K2"
  define body where "body = 123 # mid @ 125 # ws2 @ str ''```''"
  define b where "b = 3 + length tag + length ws1"
  define res where "res = Some (0::nat, Suc (Suc (b + length mid)) + length ws2 + 3, []::jstring,
                                [(1::nat, b, Suc (Suc (b + length mid)))])"
  have g: "K3 b body [] = res"
    unfolding K3_def K4_def body_def res_def
    by (rule brace_group [OF ws2]) (simp add: final_def)
  have nsp: "body = [] \<or> \<not> js_space (hd body)"
    by (simp add: body_def js_space_def)
  have "star_greedy js_space K3 (3 + length tag) (ws1 @ body) [] = res"
    using star_greedy_consume [OF ws1 nsp, of K3 "3 + length tag" "[]" ] g
    by (simp add: b_def res_def)
  then have s: "K2 (3 + length tag) (ws1 @ body) [] = res"
    by (simp add: K2_def)
  have o: "K1 3 (tag @ ws1 @ body) [] = res"
  proof (cases "tag = []")
    case True
    have "ws1 @ body = [] \<or> hd (ws1 @ body) \<noteq> 106"
      using ws1 by (cases ws1) (auto simp: js_space_def body_def)
    then have "K1 3 (ws1 @ body) [] = K2 3 (ws1 @ body) []"
      unfolding K1_def by (rule json_tag_skipped)
    then show ?thesis using s True by simp
  next
    case False
    then have t: "tag = str ''json''" using tag by simp
    have "length tag = 4" by (simp add: t str_def)
    then have r: "K2 (3 + 4) (ws1 @ body) [] = res" using s by simp
    then have "K2 (3 + 4) (ws1 @ body) [] \<noteq> None" by (simp add: res_def)
    then have "K1 3 (str ''json'' @ ws1 @ body) [] = K2 (3 + 4) (ws1 @ body) []"
      unfolding K1_def by (rule json_tag_taken)
    then show ?thesis using t r by simp
  qed
  have c: "fenced tag ws1 (123 # mid @ [125]) ws2 = str ''```'' @ tag @ ws1 @ body"
    by (simp add: fenced_def body_def)
  have "match_at fence_re 0 (str ''```'' @ tag @ ws1 @ body)
        = rmatch (lit ''```'') K1 0 (str ''```'' @ tag @ ws1 @ body) []"
    unfolding match_at_def fence_re_def K1_def K2_def K3_def K4_def final_def
    by (simp only: cat_def foldr.simps o_apply id_apply rmatch.simps(2,3))
  also have "\<dots> = K1 (0 + length ''```'') (tag @ ws1 @ body) []"
    by (rule rmatch_lit)
  also have "\<dots> = res" using o by (simp add: eval_nat_numeral)
  finally have "match_at fence_re 0 (fenced tag ws1 (123 # mid @ [125]) ws2) = res"
    using c by simp
  moreover have "length (fenced tag ws1 (123 # mid @ [125]) ws2)
                 = Suc (Suc (b + length mid)) + length ws2 + 3"
    by (simp add: fenced_def b_def str_def)
  ultimately show ?thesis
    by (simp add: res_def b_def)
qed

lemma backtick_not_json: "JSON_parse (96 # s) = Inl SyntaxError"
  by (simp add: JSON_parse_def json_lex_def lex_start_def json_ws_def word_char_def is_digit_def)

lemma fenced_group:
  assumes "tag = [] \<or> tag = str ''json''"
    and "list_all js_space ws1" and "list_all js_space ws2"
  shows "\<exists>m. jsonMatch (fenced tag ws1 (123 # mid @ [125]) ws2) = Some m \<and>
             grp m 1 = Some (123 # mid @ [125])"
proof -
  let ?content = "fenced tag ws1 (123 # mid @ [125]) ws2"
  let ?b = "3 + length tag + length ws1"
  let ?m = "\<lparr>input = ?content, index = 0, last_index = length ?content, rest = [],
             groups = [(1, ?b, ?b + (length mid + 2))]\<rparr>"
  have e: "exec fence_re ?content = Some ?m"
    using fence_match [OF assms] by (rule exec_hit)
  have "?content = (str ''```'' @ tag @ ws1) @ (123 # mid @ [125]) @ (ws2 @ str ''```'')"
    by (simp add: fenced_def)
  moreover have "length (str ''```'' @ tag @ ws1) = ?b" by (simp add: str_def)
  moreover have "length (123 # mid @ [125]) = length mid + 2" by simp
  ultimately have "substring ?content ?b (?b + (length mid + 2)) = 123 # mid @ [125]"
    using substring_middle [of "str ''```'' @ tag @ ws1" "123 # mid @ [125]" "ws2 @ str ''```''"]
    by (simp only:)
  then have "grp ?m 1 = Some (123 # mid @ [125])"
    by (simp add: grp_def)
  then show ?thesis using e by (simp add: jsonMatch_def or_match_def)
qed

lemma fenced_recipe:
  assumes "tag = [] \<or> tag = str ''json''"
    and "list_all js_space ws1" and "list_all js_space ws2"
    and "JSON_parse (123 # mid @ [125]) = Inr (JObject ms)"
  shows "parseRecipeFromResponse (fenced tag ws1 (123 # mid @ [125]) ws2) =
         parseRecipeFromResponse (123 # mid @ [125])"
proof -
  let ?content = "fenced tag ws1 (123 # mid @ [125]) ws2"
  obtain m where m: "jsonMatch ?content = Some m" "grp m 1 = Some (123 # mid @ [125])"
    using fenced_group [OF assms(1-3)] by blast
  have "?content = 96 # tl ?content" by (simp add: fenced_def str_def)
  then have "JSON_parse ?content = Inl SyntaxError"
    using backtick_not_json [of "tl ?content"] by simp
  then have 1: "parse_and_validate ?content = Inl SyntaxError"
    by (simp add: parse_and_validate_def)
  have 2: "extract_json ?content = validateAndFormatRecipe (JObject ms)"
    using m assms(4) by (simp add: extract_json_def parse_and_validate_def)
  obtain r where r: "validateAndFormatRecipe (JObject ms) = Inr r"
    by (simp add: validateAndFormatRecipe_def)
  have "parseRecipeFromResponse ?content = Inr r"
    using 1 2 r by (simp add: parseRecipeFromResponse_def)
  then show ?thesis using parse_object [OF assms(4)] r by simp
qed

lemma soup_recipe:
  "parseRecipeFromResponse soup_fenced =
     Inr \<lparr>title = str ''Soup'', description_text = [], ingredients = [],
          instructions = [JString (str ''Boil water'')],
          cookingTime = None, servings = None\<rparr>"
  by (simp only: soup_fenced_def eval_all cong: eval_cong)

lemma soup_interior_json:
  "JSON_parse (123 # soup_interior @ [125]) =
     Inr (JObject [(str ''title'', JString (str ''Soup'')), (str ''ingredients'', JArray []),
                   (str ''instructions'', JArray [JString (str ''Boil water'')])])"
  by (simp only: soup_interior_def eval_all cong: eval_cong)

lemma soup_is_fenced: "fenced (str ''json'') [10] (123 # soup_interior @ [125]) [10] = soup_fenced"
  by (simp add: fenced_def soup_fenced_def soup_interior_def str_def)

text \<open>
  C3. For every input that is a fenced code block (three backticks, optionally the tag
  \<open>json\<close>, white space, a body in braces, white space, three backticks) whose body parses
  as a JSON object, the pipeline returns what it returns on the body alone. For the fenced
  Soup input the recipe has the title "Soup", no ingredients and the one instruction
  "Boil water".
\<close>

theorem C3_fenced_block_parses_as_interior:
  "((tag = [] \<or> tag = str ''json'') \<and> list_all js_space ws1 \<and> list_all js_space ws2 \<and>
    JSON_parse (123 # mid @ [125]) = Inr (JObject ms) \<longrightarrow>
      parseRecipeFromResponse (fenced tag ws1 (123 # mid @ [125]) ws2) =
      parseRecipeFromResponse (123 # mid @ [125])) \<and>
   parseRecipeFromResponse soup_fenced =
     Inr \<lparr>title = str ''Soup'', description_text = [], ingredients = [],
          instructions = [JString (str ''Boil water'')],
          cookingTime = None, servings = None\<rparr>"
  using fenced_recipe soup_recipe by blast

theorem C3_witness:
  "parseRecipeFromResponse soup_fenced = parseRecipeFromResponse (123 # soup_interior @ [125])"
proof -
  let ?ms = "[(str ''title'', JString (str ''Soup'')), (str ''ingredients'', JArray []),
              (str ''instructions'', JArray [JString (str ''Boil water'')])]"
  have h: "(str ''json'' = [] \<or> str ''json'' = str ''json'') \<and> list_all js_space [10] \<and>
           list_all js_space [10] \<and>
           JSON_parse (123 # soup_interior @ [125]) = Inr (JObject ?ms)"
    by (simp add: js_space_def soup_interior_json)
  have "parseRecipeFromResponse (fenced (str ''json'') [10] (123 # soup_interior @ [125]) [10]) =
        parseRecipeFromResponse (123 # soup_interior @ [125])"
    using C3_fenced_block_parses_as_interior [of "str ''json''" "[10]" "[10]" soup_interior ?ms] h
    by blast
  then show ?thesis by (simp only: soup_is_fenced)
qed

section \<open>The trimmed retry\<close>

text \<open>
  Step 2 finds a text exactly when some \<open>{\<close> of the input is followed later by a \<open>}\<close>; the
  text found starts with \<open>{\<close> and ends with \<open>}\<close>, so it is never empty.
\<close>

lemma braces_append: "braces t \<Longrightarrow> braces (p @ t)"
  by (induction p) auto

lemma braces_iff: "braces s \<longleftrightarrow> (\<exists>a b. s = a @ 123 # b \<and> 125 \<in> set b)"
proof
  show "braces s \<Longrightarrow> \<exists>a b. s = a @ 123 # b \<and> 125 \<in> set b"
  proof (induction s)
    case Nil
    then show ?case by simp
  next
    case (Cons x xs)
    show ?case
    proof (cases "x = 123 \<and> 125 \<in> set xs")
      case True
      then have "x # xs = [] @ 123 # xs \<and> 125 \<in> set xs" by simp
      then show ?thesis by blast
    next
      case False
      then have "braces xs" using Cons.prems by auto
      then obtain a b where "xs = a @ 123 # b" "125 \<in> set b" using Cons.IH by blast
      then have "x # xs = (x # a) @ 123 # b \<and> 125 \<in> set b" by simp
      then show ?thesis by blast
    qed
  qed
next
  assume "\<exists>a b. s = a @ 123 # b \<and> 125 \<in> set b"
  then obtain a b where "s = a @ 123 # b" "125 \<in> set b" by blast
  then show "braces s" using braces_append [of "123 # b" a] by simp
qed

lemma brace_group_SomeD:
  assumes "rmatch (Grp 1 (cat [lit ''{'', Star any_unit, lit ''}''])) K i s c = Some r"
  shows "\<exists>u v. s = 123 # u @ 125 # v \<and>
           K (i + length u + 2) v ((1, i, i + length u + 2) # c) = Some r"
proof -
  have "s \<noteq> [] \<and> hd s = 123"
    using assms by (cases s) (auto simp: cat_def lit_def chr_def str_def split: if_splits)
  then obtain t where s: "s = 123 # t" by (cases s) auto
  define kk where "kk = (\<lambda>j t c. case t of [] \<Rightarrow> None
                     | x # xs \<Rightarrow> if x = 125 then K (Suc j) xs ((1, i, Suc j) # c) else None)"
  have "star_greedy any_unit kk (Suc i) t c = Some r"
    using assms unfolding s brace_unfold kk_def .
  from star_greedy_SomeD [OF this] obtain u w
    where t: "t = u @ w" and k: "kk (Suc i + length u) w c = Some r" by blast
  from k obtain v where w: "w = 125 # v"
    and "K (Suc (Suc i + length u)) v ((1, i, Suc (Suc i + length u)) # c) = Some r"
    by (cases w) (auto simp: kk_def split: if_splits)
  then have "s = 123 # u @ 125 # v \<and>
      K (i + length u + 2) v ((1, i, i + length u + 2) # c) = Some r"
    using s t by simp
  then show ?thesis by blast
qed

lemma brace_group_some:
  assumes "125 \<in> set t" and "\<And>j v c'. K j v c' \<noteq> None"
  shows "rmatch (Grp 1 (cat [lit ''{'', Star any_unit, lit ''}''])) K i (123 # t) c \<noteq> None"
proof -
  obtain u v where t: "t = u @ 125 # v" using assms(1) by (auto dest: split_list)
  show ?thesis
    unfolding brace_unfold t
    by (rule star_greedy_some [OF list_all_any]) (simp add: assms(2))
qed

lemma fence_re_parts:
  "rmatch fence_re k =
   rmatch (cat [lit ''```'', Opt (lit ''json''), Star js_space])
     (rmatch (Grp 1 (cat [lit ''{'', Star any_unit, lit ''}'']))
        (rmatch (cat [Star js_space, lit ''```'']) k))"
  by (simp add: fence_re_def cat_def)

lemma group_free_parts:
  "group_free (cat [lit ''```'', Opt (lit ''json''), Star js_space])"
  "group_free (cat [Star js_space, lit ''```''])"
  by (simp_all add: cat_def lit_def chr_def str_def)

lemma json_match_at:
  assumes "match_at r j t = Some (b, e, s', c)" and "r = fence_re \<or> r = brace_re"
  shows "\<exists>p u v. t = p @ 123 # u @ 125 # v \<and>
           c = [(1, j + length p, j + length p + length u + 2)]"
  using assms(2)
proof
  assume r: "r = brace_re"
  have "rmatch (Grp 1 (cat [lit ''{'', Star any_unit, lit ''}'']))
          (\<lambda>i' s' c. Some (j, i', s', c)) j t [] = Some (b, e, s', c)"
    using assms(1) unfolding r match_at_def brace_re_def .
  from brace_group_SomeD [OF this]
  obtain u v where "t = 123 # u @ 125 # v" "c = [(1, j, j + length u + 2)]"
    by auto
  then have "t = [] @ 123 # u @ 125 # v \<and>
      c = [(1, j + length ([]::jstring), j + length ([]::jstring) + length u + 2)]" by simp
  then show ?thesis by blast
next
  assume r: "r = fence_re"
  define k0 :: "nat \<Rightarrow> jstring \<Rightarrow> caps \<Rightarrow> (nat \<times> nat \<times> jstring \<times> caps) option"
    where "k0 = (\<lambda>i' s' c. Some (j, i', s', c))"
  define post where "post = rmatch (cat [Star js_space, lit ''```'']) k0"
  have "rmatch (cat [lit ''```'', Opt (lit ''json''), Star js_space])
          (rmatch (Grp 1 (cat [lit ''{'', Star any_unit, lit ''}''])) post) j t []
        = Some (b, e, s', c)"
    using assms(1) unfolding r match_at_def fence_re_parts post_def k0_def .
  from rmatch_group_free [OF this group_free_parts(1)] obtain p t1
    where t: "t = p @ t1"
      and "rmatch (Grp 1 (cat [lit ''{'', Star any_unit, lit ''}''])) post (j + length p) t1 []
           = Some (b, e, s', c)" by blast
  from brace_group_SomeD [OF this(2)] obtain u v
    where t1: "t1 = 123 # u @ 125 # v"
      and "post (j + length p + length u + 2) v [(1, j + length p, j + length p + length u + 2)]
           = Some (b, e, s', c)" by blast
  from rmatch_group_free [OF this(2) [unfolded post_def] group_free_parts(2)]
  have "c = [(1, j + length p, j + length p + length u + 2)]"
    by (auto simp: k0_def)
  then show ?thesis using t t1 by blast
qed

lemma json_exec:
  assumes "exec r content = Some m" and "r = fence_re \<or> r = brace_re"
  shows "\<exists>a u v. content = a @ 123 # u @ 125 # v \<and> grp m 1 = Some (123 # u @ [125])"
proof -
  from assms(1) obtain b e s' c
    where se: "search r 0 content = Some (b, e, s', c)"
      and m: "m = \<lparr>input = content, index = b, last_index = e, rest = s', groups = c\<rparr>"
    by (auto simp: exec_def)
  from search_SomeD_at [OF se] obtain q t
    where content: "content = q @ t" and "match_at r (length q) t = Some (b, e, s', c)"
    by auto
  from json_match_at [OF this(2) assms(2)] obtain p u v
    where t: "t = p @ 123 # u @ 125 # v"
      and c: "c = [(1, length q + length p, length q + length p + length u + 2)]" by blast
  have "content = (q @ p) @ (123 # u @ [125]) @ v" using content t by simp
  then have "substring content (length (q @ p)) (length (q @ p) + length (123 # u @ [125]))
             = 123 # u @ [125]"
    by (simp only: substring_middle)
  then have "grp m 1 = Some (123 # u @ [125])"
    by (simp add: grp_def m c)
  moreover have "content = (q @ p) @ 123 # u @ 125 # v" using content t by simp
  ultimately show ?thesis by blast
qed

lemma jsonMatch_SomeD:
  assumes "jsonMatch content = Some m"
  shows "\<exists>a u v. content = a @ 123 # u @ 125 # v \<and> grp m 1 = Some (123 # u @ [125])"
proof (cases "exec fence_re content")
  case None
  then have "exec brace_re content = Some m"
    using assms by (simp add: jsonMatch_def or_match_def)
  then show ?thesis by (rule json_exec) simp
next
  case (Some m')
  then have "exec fence_re content = Some m"
    using assms by (simp add: jsonMatch_def or_match_def)
  then show ?thesis by (rule json_exec) simp
qed

lemma braces_jsonMatch:
  assumes "braces content"
  shows "jsonMatch content \<noteq> None"
proof -
  obtain a b where content: "content = a @ 123 # b" and b: "125 \<in> set b"
    using assms by (auto simp: braces_iff)
  have "match_at brace_re (0 + length a) (123 # b) \<noteq> None"
    unfolding match_at_def brace_re_def by (rule brace_group_some [OF b]) simp
  then have "search brace_re 0 content \<noteq> None"
    unfolding content by (rule search_reaches)
  then have "exec brace_re content \<noteq> None" by (simp add: exec_def)
  then show ?thesis by (auto simp: jsonMatch_def or_match_def split: option.splits)
qed

lemma jsonMatch_braces: "jsonMatch content \<noteq> None \<longleftrightarrow> braces content"
proof
  assume "jsonMatch content \<noteq> None"
  then obtain m where "jsonMatch content = Some m" by auto
  from jsonMatch_SomeD [OF this] obtain a u v where "content = a @ 123 # u @ 125 # v" by blast
  then have "content = a @ 123 # (u @ 125 # v) \<and> 125 \<in> set (u @ 125 # v)" by simp
  then show "braces content" unfolding braces_iff by blast
qed (rule braces_jsonMatch)

lemma substring_parse_braces: "substring_parse content = None \<longleftrightarrow> \<not> braces content"
proof (cases "jsonMatch content")
  case None
  then show ?thesis using jsonMatch_braces [of content] by (simp add: substring_parse_def)
next
  case (Some m)
  from jsonMatch_SomeD [OF this] obtain a u v where "grp m 1 = Some (123 # u @ [125])" by blast
  then show ?thesis using Some jsonMatch_braces [of content] by (simp add: substring_parse_def)
qed

lemma bom_array_facts:
  "parse_and_validate bom_array = Inl SyntaxError"
  "substring_parse bom_array = Some (Inl SyntaxError)"
  "parse_and_validate (trim bom_array) =
     Inr \<lparr>title = str ''Unknown Dish'', description_text = [], ingredients = [],
          instructions = [], cookingTime = None, servings = None\<rparr>"
  "parseRecipeFromResponse bom_array =
     Inr \<lparr>title = trim bom_array,
          description_text = str ''Recipe generated from image analysis'',
          ingredients = [placeholder_ingredient], instructions = [placeholder_instruction],
          cookingTime = None, servings = None\<rparr>"
  by (simp_all only: bom_array_def substring_parse_def eval_all cong: eval_cong)

text \<open>
  C4, against the claim as stated. The claim puts the trimmed retry after every failure of
  steps 1 and 2. On a byte order mark followed by \<open>[{"a":1},{"b":2}]\<close> step 1 fails, step 2
  finds the text from the first \<open>{\<close> to the last \<open>}\<close>, which does not parse, and the
  pipeline goes on to the free-text extraction; the trimmed text would have parsed.
\<close>

theorem C4_counterexample: "\<not> spec_trimmed_retry bom_array"
  by (simp add: spec_trimmed_retry_def trimmed_retry_def bom_array_facts placeholder_ingredient_def)

text \<open>
  C4, amended. When step 1 fails and step 2 finds no fenced block and no text in braces,
  the pipeline strips the white space around the whole text and retries structured parsing
  once more before the free-text extraction. When step 2 finds such a text, the pipeline
  returns what parsing it gives, and goes straight to the free-text extraction when that
  fails; the trimmed retry is not made. Step 2 finds nothing exactly when no \<open>{\<close> of the
  input is followed later by a \<open>}\<close>.
\<close>

theorem C4_trimmed_retry_only_without_match:
  "(parse_and_validate content = Inl e \<and> substring_parse content = None \<longrightarrow>
      parseRecipeFromResponse content = trimmed_retry content) \<and>
   (parse_and_validate content = Inl e \<and> substring_parse content = Some (Inr r) \<longrightarrow>
      parseRecipeFromResponse content = Inr r) \<and>
   (parse_and_validate content = Inl e \<and> substring_parse content = Some (Inl e') \<longrightarrow>
      parseRecipeFromResponse content = extractRecipeFromText content) \<and>
   (substring_parse content = None \<longleftrightarrow> \<not> braces content)"
proof -
  have "(parse_and_validate content = Inl e \<and> substring_parse content = None \<longrightarrow>
      parseRecipeFromResponse content = trimmed_retry content) \<and>
   (parse_and_validate content = Inl e \<and> substring_parse content = Some (Inr r) \<longrightarrow>
      parseRecipeFromResponse content = Inr r) \<and>
   (parse_and_validate content = Inl e \<and> substring_parse content = Some (Inl e') \<longrightarrow>
      parseRecipeFromResponse content = extractRecipeFromText content)"
    by (auto simp: parseRecipeFromResponse_def extract_json_def substring_parse_def
        trimmed_retry_def split: option.splits sum.splits if_splits)
  then show ?thesis using substring_parse_braces by blast
qed

theorem C4_witness:
  "parseRecipeFromResponse hello = trimmed_retry hello \<and>
   parseRecipeFromResponse soup_fenced =
     Inr \<lparr>title = str ''Soup'', description_text = [], ingredients = [],
          instructions = [JString (str ''Boil water'')],
          cookingTime = None, servings = None\<rparr> \<and>
   parseRecipeFromResponse bom_array = extractRecipeFromText bom_array \<and>
   \<not> braces hello"
proof -
  have h: "parse_and_validate hello = Inl SyntaxError" "substring_parse hello = None"
    by (simp_all only: hello_def substring_parse_def eval_all cong: eval_cong)
  have s: "parse_and_validate soup_fenced = Inl SyntaxError"
    "substring_parse soup_fenced =
       Some (Inr \<lparr>title = str ''Soup'', description_text = [], ingredients = [],
                  instructions = [JString (str ''Boil water'')],
                  cookingTime = None, servings = None\<rparr>)"
    by (simp_all only: soup_fenced_def substring_parse_def eval_all cong: eval_cong)
  show ?thesis
    using C4_trimmed_retry_only_without_match [where content = hello and e = SyntaxError]
      C4_trimmed_retry_only_without_match
        [where content = soup_fenced and e = SyntaxError
           and r = "\<lparr>title = str ''Soup'', description_text = [], ingredients = [],
                    instructions = [JString (str ''Boil water'')],
                    cookingTime = None, servings = None\<rparr>"]
      C4_trimmed_retry_only_without_match
        [where content = bom_array and e = SyntaxError and e' = SyntaxError]
      h s bom_array_facts(1,2)
    by blast
qed

section \<open>Placeholders when nothing is recovered\<close>

lemma classify_nothing:
  assumes "\<forall>s \<in> set ss. \<not> is_ingredient_sentence s \<and> \<not> is_instruction_sentence s"
  shows "classify_sentences ss (a, b) = (a, b)"
proof -
  have "filter is_ingredient_sentence ss = []"
    using assms by (simp add: filter_empty_conv)
  moreover have "filter (\<lambda>s. \<not> is_ingredient_sentence s \<and> is_instruction_sentence s) ss = []"
    using assms by (simp add: filter_empty_conv)
  ultimately show ?thesis by (simp add: classify_sentences_eq)
qed

lemma no_section_ingredients:
  "exec ingredient_section_re content = None \<Longrightarrow> section_ingredients content = Inr []"
  by (simp add: section_ingredients_def)

lemma no_section_instructions:
  "exec instruction_section_re content = None \<Longrightarrow> section_instructions content = Inr []"
  by (simp add: section_instructions_def)

lemma text_path:
  "parse_and_validate content = Inl e1 \<Longrightarrow> extract_json content = Inl e2 \<Longrightarrow>
   parseRecipeFromResponse content = extractRecipeFromText content"
  by (simp add: parseRecipeFromResponse_def)

lemma empty_recipe:
  "parseRecipeFromResponse [] =
     Inr \<lparr>title = str ''Recipe from Image'',
          description_text = str ''Recipe generated from image analysis'',
          ingredients = [placeholder_ingredient], instructions = [placeholder_instruction],
          cookingTime = None, servings = None\<rparr>"
  by (simp only: eval_all cong: eval_cong)

lemma hello_facts:
  "parse_and_validate hello = Inl SyntaxError"
  "extract_json hello = Inl SyntaxError"
  "exec ingredient_section_re hello = None"
  "exec instruction_section_re hello = None"
  "sentences hello = []"
  "extract_title hello = str ''hello''"
  by (simp_all only: hello_def eval_all cong: eval_cong)

text \<open>
  C5. For every input with no parseable JSON, no entry from a labelled section and no
  sentence that classifies, and for the empty input, the pipeline returns a recipe whose \<open>ingredients\<close>
  are exactly the one placeholder ingredient and whose \<open>instructions\<close> are exactly the one
  placeholder instruction, and raises no error.
\<close>

theorem C5_placeholders_when_nothing_recovered:
  "(parse_and_validate content = Inl e1 \<and> extract_json content = Inl e2 \<and>
    section_ingredients content = Inr [] \<and>
    section_instructions content = Inr [] \<and>
    (\<forall>s \<in> set (sentences content). \<not> is_ingredient_sentence s \<and> \<not> is_instruction_sentence s)
    \<longrightarrow>
      parseRecipeFromResponse content =
        Inr \<lparr>title = extract_title content,
             description_text = str ''Recipe generated from image analysis'',
             ingredients = [placeholder_ingredient], instructions = [placeholder_instruction],
             cookingTime = None, servings = None\<rparr>) \<and>
   parseRecipeFromResponse [] =
     Inr \<lparr>title = str ''Recipe from Image'',
          description_text = str ''Recipe generated from image analysis'',
          ingredients = [placeholder_ingredient], instructions = [placeholder_instruction],
          cookingTime = None, servings = None\<rparr>"
proof (intro conjI impI)
  assume a: "parse_and_validate content = Inl e1 \<and> extract_json content = Inl e2 \<and>
    section_ingredients content = Inr [] \<and>
    section_instructions content = Inr [] \<and>
    (\<forall>s \<in> set (sentences content). \<not> is_ingredient_sentence s \<and> \<not> is_instruction_sentence s)"
  then have "parseRecipeFromResponse content = extractRecipeFromText content"
    using text_path by blast
  moreover have "classify_sentences (sentences content) ([], []) = ([], [])"
    using a classify_nothing by blast
  ultimately show "parseRecipeFromResponse content =
        Inr \<lparr>title = extract_title content,
             description_text = str ''Recipe generated from image analysis'',
             ingredients = [placeholder_ingredient], instructions = [placeholder_instruction],
             cookingTime = None, servings = None\<rparr>"
    using a by (simp add: extractRecipeFromText_def)
next
  show "parseRecipeFromResponse [] =
     Inr \<lparr>title = str ''Recipe from Image'',
          description_text = str ''Recipe generated from image analysis'',
          ingredients = [placeholder_ingredient], instructions = [placeholder_instruction],
          cookingTime = None, servings = None\<rparr>"
    by (rule empty_recipe)
qed

theorem C5_witness:
  "parseRecipeFromResponse hello =
     Inr \<lparr>title = str ''hello'',
          description_text = str ''Recipe generated from image analysis'',
          ingredients = [placeholder_ingredient], instructions = [placeholder_instruction],
          cookingTime = None, servings = None\<rparr>"
  using C5_placeholders_when_nothing_recovered [of hello SyntaxError SyntaxError]
  by (simp add: hello_facts no_section_ingredients no_section_instructions)

section \<open>Sections of bulleted and numbered lines\<close>




























section \<open>A line that does not decompose\<close>

text \<open>
  The fallback pattern matches every non-empty line without a line terminator, with the
  whole line as its first group. So a line that the quantity pattern does not match gets
  itself as quantity: the default "1" that the source writes is never taken.
\<close>

lemma whole_line_match:
  assumes "l \<noteq> []" and "list_all dot l"
  shows "exec whole_line_re l =
         Some \<lparr>input = l, index = 0, last_index = length l, rest = [],
               groups = [(1, 0, length l)]\<rparr>"
proof -
  obtain x xs where l: "l = x # xs" using assms(1) by (cases l) auto
  define k :: "nat \<Rightarrow> jstring \<Rightarrow> caps \<Rightarrow> (nat \<times> nat \<times> jstring \<times> caps) option"
    where "k = (\<lambda>i' s' c'. if s' = [] then Some (0, i', s', (1, 0, i') # c') else None)"
  have "k (Suc 0 + length xs) [] [] =
        Some (0, Suc 0 + length xs, [], [(1, 0, Suc 0 + length xs)])"
    by (simp add: k_def)
  moreover have "list_all dot xs" using assms(2) l by simp
  ultimately have "star_greedy dot k (Suc 0) (xs @ []) [] =
        Some (0, Suc 0 + length xs, [], [(1, 0, Suc 0 + length xs)])"
    by (intro star_greedy_consume) auto
  moreover have "match_at whole_line_re 0 (x # xs) = star_greedy dot k (Suc 0) xs []"
    using assms(2) l
    by (simp add: match_at_def whole_line_re_def cat_def rplus_def k_def del: One_nat_def)
  ultimately have "match_at whole_line_re 0 l = Some (0, length l, [], [(1, 0, length l)])"
    using l by simp
  then show ?thesis by (rule exec_hit)
qed

lemma substring_whole: "substring l 0 (length l) = l"
  by (simp add: substring_def slice_eq)

lemma line_without_quantity:
  assumes "exec quantity_re l = None" and "l \<noteq> []" and "list_all dot l"
  shows "parse_ingredient l = Some (ingredient l [] l)"
  using assms
  by (simp add: parse_ingredient_def or_match_def whole_line_match grp_def substring_whole
      or_str_def)

text \<open>
  C7. The claim gives such a line the quantity "1". On the input with the one ingredient
  line "salt to taste" the source takes the first group of the fallback pattern, the whole
  line, as the quantity as well as the name.
\<close>

theorem C7_whole_line_becomes_quantity:
  "parseRecipeFromResponse salt_input =
     Inr \<lparr>title = str ''Ingredients:'',
          description_text = str ''Recipe generated from image analysis'',
          ingredients = [ingredient (str ''salt to taste'') [] (str ''salt to taste'')],
          instructions = [placeholder_instruction],
          cookingTime = None, servings = None\<rparr>"
  by (simp only: salt_input_def eval_all cong: eval_cong)

section \<open>The request handler\<close>

lemma POST_with_key:
  assumes "imageData \<noteq> []" and "\<not> key_not_configured key"
  shows "snd (POST key openai (Some \<lparr>imageBase64 = Some imageData, unitSystem = u\<rparr>)) =
         [\<lparr>prompt_text = RECIPE_PROMPT, image_url = str ''data:image/jpeg;base64,'' @ imageData\<rparr>]"
  using assms by (simp add: POST_def Let_def split: reply.split option.split sum.split)

lemma unit_prompts_differ: "getUnitSystemPrompt Metric \<noteq> getUnitSystemPrompt Imperial"
  by (simp add: getUnitSystemPrompt_def str_def)

lemma key_ok: "\<not> key_not_configured (Some (str ''sk-test''))"
  by (simp add: key_not_configured_def str_def)

text \<open>
  C8. The claim has the prompt state the rules of the unit system of the request. With a
  key configured, the handler sends the same constant prompt for a metric and for an
  imperial request; the prompt names neither system, and the two texts of
  \<open>getUnitSystemPrompt\<close>, which differ, are not used.
\<close>

theorem C8_prompt_ignores_unit_system:
  "map prompt_text (snd (POST (Some (str ''sk-test'')) (\<lambda>call. Failed)
      (Some \<lparr>imageBase64 = Some (str ''abc''), unitSystem = Some Metric\<rparr>))) = [RECIPE_PROMPT] \<and>
   map prompt_text (snd (POST (Some (str ''sk-test'')) (\<lambda>call. Failed)
      (Some \<lparr>imageBase64 = Some (str ''abc''), unitSystem = Some Imperial\<rparr>))) = [RECIPE_PROMPT] \<and>
   getUnitSystemPrompt Metric \<noteq> getUnitSystemPrompt Imperial \<and>
   \<not> includes_str (str ''METRIC'') RECIPE_PROMPT \<and>
   \<not> includes_str (str ''IMPERIAL'') RECIPE_PROMPT"
proof -
  have n: "str ''abc'' \<noteq> []" by (simp add: str_def)
  have m: "\<not> includes_str (str ''METRIC'') RECIPE_PROMPT"
    by (simp only: RECIPE_PROMPT_def eval_literals eval_library includes_str.simps starts_with.simps cong: eval_cong)
  have i: "\<not> includes_str (str ''IMPERIAL'') RECIPE_PROMPT"
    by (simp only: RECIPE_PROMPT_def eval_literals eval_library includes_str.simps starts_with.simps cong: eval_cong)
  show ?thesis
    using POST_with_key [OF n key_ok] unit_prompts_differ m i by simp
qed





section \<open>The last resort: classifying sentences\<close>

lemma flour_facts:
  "is_ingredient_sentence flour_sentence"
  "is_instruction_sentence flour_sentence"
  "section_ingredients flour_sentence = Inr []"
  "section_instructions flour_sentence = Inr []"
  "sentences flour_sentence = [flour_sentence]"
  by (simp_all only: flour_sentence_def eval_all cong: eval_cong)

lemma steps_facts:
  "section_ingredients steps_input = Inr []"
  "section_instructions steps_input = Inr [JString (str ''Mix everything together'')]"
  by (simp_all only: steps_input_def eval_all cong: eval_cong)

text \<open>
  C10. In the sentence fallback every sentence is tested as an ingredient first: a sentence
  that meets the ingredient test is pushed as an ingredient and is never among the
  instructions the loop pushes, whether or not it contains a cooking verb. The fallback
  runs exactly when the two sections gave no ingredient and no instruction; otherwise the
  lists of the sections are returned.
\<close>

theorem C10_ingredient_test_comes_first:
  "(s \<in> set ss \<and> is_ingredient_sentence s \<longrightarrow>
      ingredient (str ''1'') [] s \<in> set (fst (classify_sentences ss ([], []))) \<and>
      JString s \<notin> set (snd (classify_sentences ss ([], [])))) \<and>
   (section_ingredients content = Inr [] \<and> section_instructions content = Inr [] \<longrightarrow>
      extractRecipeFromText content =
        Inr \<lparr>title = extract_title content,
             description_text = str ''Recipe generated from image analysis'',
             ingredients = or_placeholder (fst (classify_sentences (sentences content) ([], [])))
                             placeholder_ingredient,
             instructions = or_placeholder (snd (classify_sentences (sentences content) ([], [])))
                              placeholder_instruction,
             cookingTime = None, servings = None\<rparr>) \<and>
   (section_ingredients content' = Inr ings \<and> section_instructions content' = Inr ins \<and>
    (ings \<noteq> [] \<or> ins \<noteq> []) \<longrightarrow>
      extractRecipeFromText content' =
        Inr \<lparr>title = extract_title content',
             description_text = str ''Recipe generated from image analysis'',
             ingredients = or_placeholder ings placeholder_ingredient,
             instructions = or_placeholder ins placeholder_instruction,
             cookingTime = None, servings = None\<rparr>)"
  by (auto simp: classify_sentences_eq extractRecipeFromText_def or_placeholder_def)

theorem C10_witness:
  "is_ingredient_sentence flour_sentence \<and> is_instruction_sentence flour_sentence \<and>
   (\<exists>r. extractRecipeFromText flour_sentence = Inr r \<and>
        ingredients r = [ingredient (str ''1'') [] flour_sentence] \<and>
        instructions r = [placeholder_instruction]) \<and>
   (\<exists>r. extractRecipeFromText steps_input = Inr r \<and>
        ingredients r = [placeholder_ingredient] \<and>
        instructions r = [JString (str ''Mix everything together'')])"
  using C10_ingredient_test_comes_first [of flour_sentence "[flour_sentence]" flour_sentence
      steps_input "[]" "[JString (str ''Mix everything together'')]"]
  by (simp add: flour_facts steps_facts or_placeholder_def classify_sentences_eq)

end
